theory Spec2Isabelle
  imports Main
begin

section \<open>The local service orchestrator of the desktop shell\<close>

text \<open>
  The model follows the Electron main process (the second part of
  \<^verbatim>\<open>src/electron/preload.js\<close>, from \<^verbatim>\<open>const { app, BrowserWindow, ... }\<close> on)
  and the bridge exposed by the preload script (the first part of the same file).

  The main process is asynchronous JavaScript on one event loop. Every handler is
  modelled as a state transformer that runs from its first statement to its last one
  with the events of the outside world (child exits, requests of the UI) delivered
  between handlers; the answers of the outside world to the port probes are read from
  an oracle, indexed by the number of probes made so far. What the code does to the
  outside world is recorded, in order, in the field \<open>trace\<close> of the state.
  Left out: the listeners that copy the output of the children to the log, the
  \<^verbatim>\<open>error\<close> listener of the backend process and the handler of uncaught exceptions
  (all three only write log lines), the contents of the menu, and what the window
  loads. \<^verbatim>\<open>spawn\<close> always yields a process: a command that cannot be executed is
  not modelled.
\<close>

subsection \<open>Configuration\<close>

type_synonym port = nat
type_synonym pid = nat

definition BACKEND_PORT :: port where
  "BACKEND_PORT = 8000"

definition FRONTEND_PORT :: port where
  "FRONTEND_PORT = 3000"

definition OLLAMA_PORT :: port where
  "OLLAMA_PORT = 11434"

text \<open>
  \<open>isDev\<close> is \<^verbatim>\<open>process.env.NODE_ENV === 'development'\<close>, \<open>darwin\<close> is
  \<^verbatim>\<open>process.platform === 'darwin'\<close>, \<open>trayIconExists\<close> is
  \<^verbatim>\<open>fs.existsSync(iconPath)\<close> in \<^verbatim>\<open>createTray\<close>.
\<close>

record config =
  isDev :: bool
  darwin :: bool
  userDataPath :: string
  trayIconExists :: bool

subsection \<open>The outside world\<close>

text \<open>
  \<^verbatim>\<open>checkService\<close> sends an HTTP request with \<^verbatim>\<open>http.request\<close> and a socket
  timeout of 2000 ms. What can happen to it: the TCP connection is refused, is not
  established before the timeout, fails with another error, or is established; on an
  established connection the response arrives, or nothing arrives before the socket has
  been idle for the timeout, or the connection breaks (a reset, bytes that are not HTTP).
\<close>

datatype http_outcome = ResponseReceived | NoResponse | BrokenResponse

datatype conn_outcome = Established http_outcome | Refused | TimedOut | OtherError

text \<open>The first event that Node's request object emits in each case.\<close>

datatype req_event = OnResponse | OnError | OnTimeout

fun request_event :: "conn_outcome \<Rightarrow> req_event" where
  "request_event (Established ResponseReceived) = OnResponse"
| "request_event (Established NoResponse) = OnTimeout"
| "request_event (Established BrokenResponse) = OnError"
| "request_event Refused = OnError"
| "request_event TimedOut = OnTimeout"
| "request_event OtherError = OnError"

fun connection_established :: "conn_outcome \<Rightarrow> bool" where
  "connection_established (Established h) = True"
| "connection_established Refused = False"
| "connection_established TimedOut = False"
| "connection_established OtherError = False"

text \<open>
  The oracle: \<open>probe e n p\<close> is what happens to the \<open>n\<close>-th probe of the run (counted
  from 0) when it goes to port \<open>p\<close>; \<open>picked e\<close> is what the user selects in the file
  dialog.
\<close>

record env =
  probe :: "nat \<Rightarrow> port \<Rightarrow> conn_outcome"
  picked :: "string list"

subsection \<open>State and effects\<close>

datatype service = Ollama | Backend | Frontend

text \<open>
  A child process as the operating system and Node see it: who spawned it, with which
  command line, whether \<^verbatim>\<open>kill()\<close> has been called on it while it was alive, and
  whether its exit has been reported.
\<close>

record child =
  spawned_for :: service
  command :: string
  arguments :: "string list"
  detached :: bool
  signalled :: bool
  exited :: bool

text \<open>
  What the main process does to the outside world: it probes a port, spawns a process,
  calls \<^verbatim>\<open>kill()\<close> on one, sleeps for a number of milliseconds, writes a log line
  (\<open>LogExit code\<close> is the line \<^verbatim>\<open>Backend exited with code ${code}\<close>), shows an
  error box, sends a status object to the window, creates the menu, the window or the
  tray, shows the file dialog.
\<close>

datatype effect =
    Probe port
  | Spawn service pid
  | Kill pid
  | Sleep nat
  | Log string
  | LogExit "int option"
  | ErrorBox string
  | Send "(string \<times> bool) list"
  | CreateMenu
  | CreateWindow
  | CreateTray
  | ShowOpenDialog

text \<open>
  \<open>mainWindow\<close>, \<open>tray\<close>, \<open>backendProcess\<close> and \<open>frontendProcess\<close> are the four
  variables of the main process (\<open>None\<close> and \<open>False\<close> stand for \<^verbatim>\<open>null\<close>). A process
  identifier is the index of the child in \<open>children\<close>. \<open>tick\<close> counts the probes made.
\<close>

record state =
  mainWindow :: bool
  tray :: bool
  backendProcess :: "pid option"
  frontendProcess :: "pid option"
  children :: "child list"
  tick :: nat
  trace :: "effect list"

definition init :: state where
  "init = \<lparr>mainWindow = False, tray = False, backendProcess = None,
           frontendProcess = None, children = [], tick = 0, trace = []\<rparr>"

definition emit :: "effect \<Rightarrow> state \<Rightarrow> state" where
  "emit x s = s\<lparr>trace := trace s @ [x]\<rparr>"

text \<open>\<^verbatim>\<open>log(message)\<close> writes the line to the console and appends it to the log file.\<close>

definition log :: "string \<Rightarrow> state \<Rightarrow> state" where
  "log m s = emit (Log m) s"

text \<open>The effects a handler has added to the trace.\<close>

definition new_effects :: "state \<Rightarrow> state \<Rightarrow> effect list" where
  "new_effects s s' = drop (length (trace s)) (trace s')"

subsection \<open>Port prober\<close>

text \<open>
  \<^verbatim>\<open>
  function checkService(port) {
    return new Promise((resolve) => {
      const req = http.request({ host: 'localhost', port, timeout: 2000 }, (res) => {
        resolve(true);
      });
      req.on('error', () => resolve(false));
      req.on('timeout', () => { req.destroy(); resolve(false); });
      req.end();
    });
  }
  \<close>
  The promise is settled by the first handler that runs; no handler rejects it.
\<close>

fun resolve_value :: "req_event \<Rightarrow> bool" where
  "resolve_value OnResponse = True"
| "resolve_value OnError = False"
| "resolve_value OnTimeout = False"

definition checkService :: "env \<Rightarrow> port \<Rightarrow> state \<Rightarrow> bool \<times> state" where
  "checkService e p s =
     (resolve_value (request_event (probe e (tick s) p)),
      (emit (Probe p) s)\<lparr>tick := Suc (tick s)\<rparr>)"

subsection \<open>Readiness waiter\<close>

text \<open>
  \<^verbatim>\<open>
  async function waitForService(port, maxAttempts = 30) {
    for (let i = 0; i < maxAttempts; i++) {
      if (await checkService(port)) { return true; }
      await new Promise(resolve => setTimeout(resolve, 1000));
    }
    return false;
  }
  \<close>
  \<open>waitLoop\<close> is the loop from the value \<open>i\<close> of its counter on. The number of
  attempts is a natural number.
\<close>

function waitLoop :: "env \<Rightarrow> port \<Rightarrow> nat \<Rightarrow> nat \<Rightarrow> state \<Rightarrow> bool \<times> state" where
  "waitLoop e p maxAttempts i s =
     (if i < maxAttempts then
        (let r = checkService e p s in
         if fst r then (True, snd r)
         else waitLoop e p maxAttempts (Suc i) (emit (Sleep 1000) (snd r)))
      else (False, s))"
  by pat_completeness auto
termination
  by (relation "measure (\<lambda>(e, p, m, i, s). m - i)") auto

declare waitLoop.simps [simp del]

definition DEFAULT_MAX_ATTEMPTS :: nat where
  "DEFAULT_MAX_ATTEMPTS = 30"

definition waitForService :: "env \<Rightarrow> port \<Rightarrow> nat \<Rightarrow> state \<Rightarrow> bool \<times> state" where
  "waitForService e p maxAttempts s = waitLoop e p maxAttempts 0 s"

subsection \<open>Child process manager\<close>

text \<open>
  \<^verbatim>\<open>spawn\<close> of \<^verbatim>\<open>child_process\<close> returns the handle of a new process.
  \<^verbatim>\<open>handle.kill()\<close> sends the termination signal and returns at once; it does not
  wait for the process, and on a process that has exited it sends nothing.
\<close>

definition new_child :: "service \<Rightarrow> string \<Rightarrow> string list \<Rightarrow> bool \<Rightarrow> child" where
  "new_child svc cmd args det =
     \<lparr>spawned_for = svc, command = cmd, arguments = args, detached = det,
      signalled = False, exited = False\<rparr>"

definition spawn :: "service \<Rightarrow> string \<Rightarrow> string list \<Rightarrow> bool \<Rightarrow> state \<Rightarrow> pid \<times> state" where
  "spawn svc cmd args det s =
     (length (children s),
      (emit (Spawn svc (length (children s))) s)
        \<lparr>children := children s @ [new_child svc cmd args det]\<rparr>)"

definition kill :: "pid \<Rightarrow> state \<Rightarrow> state" where
  "kill p s =
     (if p < length (children s) \<and> \<not> exited (children s ! p)
      then (emit (Kill p) s)
             \<lparr>children := (children s)[p := (children s ! p)\<lparr>signalled := True\<rparr>]\<rparr>
      else emit (Kill p) s)"

text \<open>
  The listener that \<^verbatim>\<open>startBackend\<close> registers on every backend process:
  \<^verbatim>\<open>
  backendProcess.on('exit', (code) => {
    log(`Backend exited with code ${code}`);
    backendProcess = null;
  });
  \<close>
  No listener is registered on the other children.
\<close>

definition backend_on_exit :: "int option \<Rightarrow> state \<Rightarrow> state" where
  "backend_on_exit code s = (emit (LogExit code) s)\<lparr>backendProcess := None\<rparr>"

text \<open>The operating system reports the exit of child \<open>p\<close>.\<close>

definition child_exit :: "pid \<Rightarrow> int option \<Rightarrow> state \<Rightarrow> state" where
  "child_exit p code s =
     (if p < length (children s) \<and> \<not> exited (children s ! p) then
        (if spawned_for (children s ! p) = Backend
         then backend_on_exit code
                (s\<lparr>children := (children s)[p := (children s ! p)\<lparr>exited := True\<rparr>]\<rparr>)
         else s\<lparr>children := (children s)[p := (children s ! p)\<lparr>exited := True\<rparr>]\<rparr>)
      else s)"

subsection \<open>Starting the services\<close>

text \<open>
  \<^verbatim>\<open>
  async function checkOllama() {
    const isRunning = await checkService(OLLAMA_PORT);
    if (isRunning) { log('Ollama is already running'); return true; }
    log('Attempting to start Ollama...');
    return new Promise((resolve) => {
      const ollamaProcess = spawn('ollama', ['serve'], { detached: true, stdio: 'ignore' });
      ollamaProcess.unref();
      setTimeout(async () => {
        const started = await checkService(OLLAMA_PORT);
        if (started) { log('Ollama started successfully'); resolve(true); }
        else { log('Failed to start Ollama'); resolve(false); }
      }, 3000);
    });
  }
  \<close>
\<close>

definition checkOllama :: "env \<Rightarrow> state \<Rightarrow> bool \<times> state" where
  "checkOllama e s =
     (let r = checkService e OLLAMA_PORT s in
      if fst r then (True, log ''Ollama is already running'' (snd r))
      else
        (let s1 = log ''Attempting to start Ollama...'' (snd r);
             s2 = snd (spawn Ollama ''ollama'' [''serve''] True s1);
             s3 = emit (Sleep 3000) s2;
             r' = checkService e OLLAMA_PORT s3
         in if fst r' then (True, log ''Ollama started successfully'' (snd r'))
            else (False, log ''Failed to start Ollama'' (snd r'))))"

text \<open>
  \<^verbatim>\<open>
  async function startBackend() {
    if (await checkService(BACKEND_PORT)) { log('Backend already running'); return true; }
    log('Starting backend...');
    const pythonCmd = process.platform === 'darwin' ? 'python3' : 'python';
    backendProcess = spawn(pythonCmd, ['-m', 'app.main'], { ... });
    ...
    backendProcess.on('exit', ...);
    return await waitForService(BACKEND_PORT);
  }
  \<close>
\<close>

definition pythonCmd :: "config \<Rightarrow> string" where
  "pythonCmd c = (if darwin c then ''python3'' else ''python'')"

definition startBackend :: "config \<Rightarrow> env \<Rightarrow> state \<Rightarrow> bool \<times> state" where
  "startBackend c e s =
     (let r = checkService e BACKEND_PORT s in
      if fst r then (True, log ''Backend already running'' (snd r))
      else
        (let s1 = log ''Starting backend...'' (snd r);
             sp = spawn Backend (pythonCmd c) [''-m'', ''app.main''] False s1;
             s2 = (snd sp)\<lparr>backendProcess := Some (fst sp)\<rparr>
         in waitForService e BACKEND_PORT DEFAULT_MAX_ATTEMPTS s2))"

text \<open>
  \<^verbatim>\<open>
  async function startFrontend() {
    if (isDev) {
      if (await checkService(FRONTEND_PORT)) { log('Frontend dev server already running'); return true; }
      log('Starting frontend dev server...');
      frontendProcess = spawn('npm', ['run', 'dev'], { ... });
      ...
      return await waitForService(FRONTEND_PORT);
    }
    return true;
  }
  \<close>
\<close>

definition startFrontend :: "config \<Rightarrow> env \<Rightarrow> state \<Rightarrow> bool \<times> state" where
  "startFrontend c e s =
     (if isDev c then
        (let r = checkService e FRONTEND_PORT s in
         if fst r then (True, log ''Frontend dev server already running'' (snd r))
         else
           (let s1 = log ''Starting frontend dev server...'' (snd r);
                sp = spawn Frontend ''npm'' [''run'', ''dev''] False s1;
                s2 = (snd sp)\<lparr>frontendProcess := Some (fst sp)\<rparr>
            in waitForService e FRONTEND_PORT DEFAULT_MAX_ATTEMPTS s2))
      else (True, s))"

subsection \<open>Window, tray and status\<close>

text \<open>
  \<^verbatim>\<open>createWindow\<close> assigns a new window to \<^verbatim>\<open>mainWindow\<close>; \<^verbatim>\<open>createTray\<close> returns
  early when the icon file does not exist.
\<close>

definition createWindow :: "state \<Rightarrow> state" where
  "createWindow s = (emit CreateWindow s)\<lparr>mainWindow := True\<rparr>"

definition createMenu :: "state \<Rightarrow> state" where
  "createMenu s = emit CreateMenu s"

definition createTray :: "config \<Rightarrow> state \<Rightarrow> state" where
  "createTray c s =
     (if \<not> trayIconExists c then s else (emit CreateTray s)\<lparr>tray := True\<rparr>)"

text \<open>
  \<^verbatim>\<open>
  async function checkAllServices() {
    const ollama = await checkService(OLLAMA_PORT);
    const backend = await checkService(BACKEND_PORT);
    if (mainWindow) {
      mainWindow.webContents.send('services-status', { ollama, backend, frontend: true });
    }
    return { ollama, backend };
  }
  \<close>
  An object is the list of its fields.
\<close>

definition checkAllServices :: "env \<Rightarrow> state \<Rightarrow> (string \<times> bool) list \<times> state" where
  "checkAllServices e s =
     (let ro = checkService e OLLAMA_PORT s;
          rb = checkService e BACKEND_PORT (snd ro);
          s2 = snd rb
      in ([(''ollama'', fst ro), (''backend'', fst rb)],
          if mainWindow s2
          then emit (Send [(''ollama'', fst ro), (''backend'', fst rb), (''frontend'', True)]) s2
          else s2))"

subsection \<open>Requests of the UI\<close>

text \<open>
  \<^verbatim>\<open>
  ipcMain.handle('restart-backend', async () => {
    if (backendProcess) { backendProcess.kill(); backendProcess = null; }
    return await startBackend();
  });
  \<close>
\<close>

definition restart_backend :: "config \<Rightarrow> env \<Rightarrow> state \<Rightarrow> bool \<times> state" where
  "restart_backend c e s =
     startBackend c e
       (case backendProcess s of
          Some p \<Rightarrow> (kill p s)\<lparr>backendProcess := None\<rparr>
        | None \<Rightarrow> s)"

datatype ipc_value =
    VBool bool
  | VObject "(string \<times> bool) list"
  | VStrings "string list"
  | VString string

datatype ipc_error = NoHandler string

text \<open>
  The four handlers registered with \<^verbatim>\<open>ipcMain.handle\<close>; Electron rejects an invocation
  on a channel without a handler. No handler reads the arguments of the invocation.
\<close>

definition ipcMain_invoke ::
    "config \<Rightarrow> env \<Rightarrow> string \<Rightarrow> state \<Rightarrow> (ipc_error + ipc_value) \<times> state" where
  "ipcMain_invoke c e channel s =
     (if channel = ''get-services-status'' then
        (Inr (VObject (fst (checkAllServices e s))), snd (checkAllServices e s))
      else if channel = ''restart-backend'' then
        (Inr (VBool (fst (restart_backend c e s))), snd (restart_backend c e s))
      else if channel = ''open-file-dialog'' then
        (Inr (VStrings (picked e)), emit ShowOpenDialog s)
      else if channel = ''get-user-data-path'' then
        (Inr (VString (userDataPath c)), s)
      else (Inl (NoHandler channel), s))"

text \<open>
  The functions that the preload script exposes to the UI as \<^verbatim>\<open>window.electronAPI\<close>:
  \<^verbatim>\<open>
  getServicesStatus: () => ipcRenderer.invoke('get-services-status'),
  restartBackend: () => ipcRenderer.invoke('restart-backend'),
  openFileDialog: () => ipcRenderer.invoke('open-file-dialog'),
  getUserDataPath: () => ipcRenderer.invoke('get-user-data-path'),
  \<close>
  Each is a function without parameters: the arguments \<open>args\<close> of a call are dropped.
  The bridge also exposes \<^verbatim>\<open>onServicesStatus\<close>, which registers a listener of the UI
  for the status messages, and the constants \<^verbatim>\<open>platform\<close> and \<^verbatim>\<open>isElectron\<close>; none
  of them reaches the main process.
\<close>

definition getServicesStatus ::
    "string list \<Rightarrow> config \<Rightarrow> env \<Rightarrow> state \<Rightarrow> (ipc_error + ipc_value) \<times> state" where
  "getServicesStatus args c e s = ipcMain_invoke c e ''get-services-status'' s"

definition restartBackend ::
    "string list \<Rightarrow> config \<Rightarrow> env \<Rightarrow> state \<Rightarrow> (ipc_error + ipc_value) \<times> state" where
  "restartBackend args c e s = ipcMain_invoke c e ''restart-backend'' s"

definition openFileDialog ::
    "string list \<Rightarrow> config \<Rightarrow> env \<Rightarrow> state \<Rightarrow> (ipc_error + ipc_value) \<times> state" where
  "openFileDialog args c e s = ipcMain_invoke c e ''open-file-dialog'' s"

definition getUserDataPath ::
    "string list \<Rightarrow> config \<Rightarrow> env \<Rightarrow> state \<Rightarrow> (ipc_error + ipc_value) \<times> state" where
  "getUserDataPath args c e s = ipcMain_invoke c e ''get-user-data-path'' s"

subsection \<open>Application lifecycle\<close>

text \<open>
  \<^verbatim>\<open>
  app.whenReady().then(async () => {
    log('App starting...');
    createMenu();
    createWindow();
    const ollamaReady = await checkOllama();
    if (!ollamaReady) { dialog.showErrorBox('Ollama Not Found', ...); }
    const backendReady = await startBackend();
    if (!backendReady) { dialog.showErrorBox('Backend Error', ...); }
    if (isDev) { await startFrontend(); }
    createTray();
    log('App ready');
  });
  \<close>
\<close>

definition whenReady :: "config \<Rightarrow> env \<Rightarrow> state \<Rightarrow> state" where
  "whenReady c e s =
     (let s1 = createWindow (createMenu (log ''App starting...'' s));
          ro = checkOllama e s1;
          s2 = (if \<not> fst ro then emit (ErrorBox ''Ollama Not Found'') (snd ro) else snd ro);
          rb = startBackend c e s2;
          s3 = (if \<not> fst rb then emit (ErrorBox ''Backend Error'') (snd rb) else snd rb);
          s4 = (if isDev c then snd (startFrontend c e s3) else s3)
      in log ''App ready'' (createTray c s4))"

text \<open>
  \<^verbatim>\<open>
  app.on('before-quit', () => {
    log('App quitting...');
    if (backendProcess) { backendProcess.kill(); backendProcess = null; }
    if (frontendProcess) { frontendProcess.kill(); frontendProcess = null; }
  });
  \<close>
\<close>

definition before_quit :: "state \<Rightarrow> state" where
  "before_quit s =
     (let s1 = log ''App quitting...'' s;
          s2 = (case backendProcess s1 of
                  Some p \<Rightarrow> (kill p s1)\<lparr>backendProcess := None\<rparr>
                | None \<Rightarrow> s1)
      in case frontendProcess s2 of
           Some q \<Rightarrow> (kill q s2)\<lparr>frontendProcess := None\<rparr>
         | None \<Rightarrow> s2)"

subsection \<open>The event loop\<close>

datatype api = GetServicesStatus | RestartBackend | OpenFileDialog | GetUserDataPath

text \<open>
  What can reach the main process: the application becomes ready, the UI calls a
  function of the bridge, the tray entry \<^verbatim>\<open>Check Services\<close> is clicked, a child
  exits, the window is closed, the application is activated, all windows are closed,
  \<^verbatim>\<open>app.quit()\<close> is called.
\<close>

datatype event =
    AppReady
  | UiCall api "string list"
  | TrayCheckServices
  | ChildExit pid "int option"
  | WindowClosed
  | Activate
  | WindowAllClosed
  | Quit

text \<open>
  The handlers not shown above:
  \<^verbatim>\<open>
  ipcMain.handle('get-services-status', checkAllServices);
  ipcMain.handle('open-file-dialog', async () => { ... return result.filePaths; });
  ipcMain.handle('get-user-data-path', () => userDataPath);
  { label: 'Check Services', click: checkAllServices }
  mainWindow.on('closed', () => { mainWindow = null; });
  app.on('activate', () => { if (mainWindow === null) { createWindow(); } });
  app.on('window-all-closed', () => { if (process.platform !== 'darwin') { app.quit(); } });
  \<close>
  \<^verbatim>\<open>app.quit()\<close> emits \<^verbatim>\<open>before-quit\<close>.
\<close>

fun handle :: "config \<Rightarrow> env \<Rightarrow> event \<Rightarrow> state \<Rightarrow> state" where
  "handle c e AppReady s = whenReady c e s"
| "handle c e (UiCall GetServicesStatus args) s = snd (getServicesStatus args c e s)"
| "handle c e (UiCall RestartBackend args) s = snd (restartBackend args c e s)"
| "handle c e (UiCall OpenFileDialog args) s = snd (openFileDialog args c e s)"
| "handle c e (UiCall GetUserDataPath args) s = snd (getUserDataPath args c e s)"
| "handle c e TrayCheckServices s = snd (checkAllServices e s)"
| "handle c e (ChildExit p code) s = child_exit p code s"
| "handle c e WindowClosed s = s\<lparr>mainWindow := False\<rparr>"
| "handle c e Activate s = (if \<not> mainWindow s then createWindow s else s)"
| "handle c e WindowAllClosed s = (if \<not> darwin c then before_quit s else s)"
| "handle c e Quit s = before_quit s"

text \<open>The application ends with the handler of \<^verbatim>\<open>before-quit\<close>.\<close>

definition quits :: "config \<Rightarrow> event \<Rightarrow> bool" where
  "quits c ev = (ev = Quit \<or> (ev = WindowAllClosed \<and> \<not> darwin c))"

fun run :: "config \<Rightarrow> env \<Rightarrow> event list \<Rightarrow> state \<Rightarrow> state" where
  "run c e [] s = s"
| "run c e (ev # evs) s =
     (if quits c ev then handle c e ev s else run c e evs (handle c e ev s))"

subsection \<open>Notions used in the statements\<close>

text \<open>The \<open>n\<close>-th probe of the run, sent to port \<open>p\<close>, resolves to \<^verbatim>\<open>true\<close>.\<close>

definition probe_ok :: "env \<Rightarrow> nat \<Rightarrow> port \<Rightarrow> bool" where
  "probe_ok e n p = resolve_value (request_event (probe e n p))"

fun is_probe :: "effect \<Rightarrow> bool" where
  "is_probe (Probe p) = True"
| "is_probe x = False"

definition probes_in :: "effect list \<Rightarrow> nat" where
  "probes_in tr = length (filter is_probe tr)"

text \<open>The services for which a trace spawns a process, and the processes it signals.\<close>

fun spawned_in :: "effect list \<Rightarrow> service list" where
  "spawned_in [] = []"
| "spawned_in (Spawn svc p # tr) = svc # spawned_in tr"
| "spawned_in (x # tr) = spawned_in tr"

fun killed_in :: "effect list \<Rightarrow> pid list" where
  "killed_in [] = []"
| "killed_in (Kill p # tr) = p # killed_in tr"
| "killed_in (x # tr) = killed_in tr"

text \<open>
  The service that an effect works on: a probe works on the service of its port, a
  spawn on the service it starts. \<open>rank\<close> is the place of the service in the order
  runtime, backend, asset server.
\<close>

fun step_of :: "effect \<Rightarrow> service option" where
  "step_of (Probe p) =
     (if p = OLLAMA_PORT then Some Ollama
      else if p = BACKEND_PORT then Some Backend
      else if p = FRONTEND_PORT then Some Frontend
      else None)"
| "step_of (Spawn svc p) = Some svc"
| "step_of x = None"

definition steps :: "effect list \<Rightarrow> service list" where
  "steps tr = List.map_filter step_of tr"

fun rank :: "service \<Rightarrow> nat" where
  "rank Ollama = 0"
| "rank Backend = 1"
| "rank Frontend = 2"

text \<open>
  \<open>probes_before p tr\<close> is the number of probes that a trace makes before its first
  probe of port \<open>p\<close>. The probes of a run are numbered in the order in which they are
  made, so that, for a handler started in state \<open>s\<close> with effects \<open>tr\<close>,
  \<open>first_probe_ok e s tr p\<close> says that the first probe of port \<open>p\<close> that the handler
  makes is answered.
\<close>

definition probes_before :: "port \<Rightarrow> effect list \<Rightarrow> nat" where
  "probes_before p tr = probes_in (takeWhile (\<lambda>x. x \<noteq> Probe p) tr)"

definition first_probe_ok :: "env \<Rightarrow> state \<Rightarrow> effect list \<Rightarrow> port \<Rightarrow> bool" where
  "first_probe_ok e s tr p = probe_ok e (tick s + probes_before p tr) p"

text \<open>The processes spawned for a service whose exit has not been reported.\<close>

definition live_of :: "service \<Rightarrow> state \<Rightarrow> pid list" where
  "live_of svc s =
     filter (\<lambda>p. spawned_for (children s ! p) = svc \<and> \<not> exited (children s ! p))
       [0..<length (children s)]"





text \<open>The four variables of the main process.\<close>

definition vars :: "state \<Rightarrow> bool \<times> bool \<times> pid option \<times> pid option" where
  "vars s = (mainWindow s, tray s, backendProcess s, frontendProcess s)"

text \<open>
  A world for the examples: the \<open>n\<close>-th probe of the run has the \<open>n\<close>-th outcome of the
  list, whatever its port, and every later probe is refused.
\<close>

definition env_of :: "conn_outcome list \<Rightarrow> env" where
  "env_of os = \<lparr>probe = (\<lambda>n p. if n < length os then os ! n else Refused), picked = []\<rparr>"

text \<open>
  A world in which the runtime always answers and every other probe is refused until
  the 36th probe of the run, from which on every probe is answered.
\<close>

definition late_backend :: env where
  "late_backend =
     \<lparr>probe = (\<lambda>n p. if p = OLLAMA_PORT \<or> 35 \<le> n then Established ResponseReceived
                       else Refused),
      picked = []\<rparr>"

definition production :: config where
  "production = \<lparr>isDev = False, darwin = True, userDataPath = ''/data'',
                  trayIconExists = False\<rparr>"

definition development :: config where
  "development = \<lparr>isDev = True, darwin = True, userDataPath = ''/data'',
                   trayIconExists = False\<rparr>"

subsection \<open>The handlers step by step\<close>

text \<open>
  An asynchronous handler gives up the event loop whenever it waits for a probe to be
  answered or for a timer, and other handlers run in between. Here every handler is
  cut at these points. A \<open>task\<close> is a handler that is waiting: it records where the
  handler waits and, when it waits for a probe, the number of that probe. The code
  between two waits runs without interruption.

  \<open>issue p\<close> is the part of \<^verbatim>\<open>checkService(p)\<close> that runs at once: the request is
  sent. The answer to probe number \<open>n\<close> is \<open>probe_ok e n p\<close>.
\<close>

datatype caller = FromReady | FromRestart

datatype waiter = BackendWait caller | FrontendWait


datatype task =
    OllamaCheck nat
  | OllamaTimer
  | OllamaRecheck nat
  | BackendCheck caller nat
  | FrontendCheck nat
  | WaitProbe waiter nat nat
  | WaitTimer waiter nat
  | StatusOllama nat
  | StatusBackend bool nat
  | DialogOpen

definition issue :: "port \<Rightarrow> state \<Rightarrow> nat \<times> state" where
  "issue p s = (tick s, (emit (Probe p) s)\<lparr>tick := Suc (tick s)\<rparr>)"






text \<open>\<^verbatim>\<open>startBackend\<close> up to its first wait.\<close>

definition begin_startBackend :: "caller \<Rightarrow> state \<Rightarrow> state \<times> task option" where
  "begin_startBackend k s =
     (snd (issue BACKEND_PORT s), Some (BackendCheck k (fst (issue BACKEND_PORT s))))"

text \<open>
  An event arrives: its handler runs up to its first wait. The handler of
  \<^verbatim>\<open>open-file-dialog\<close> waits for the dialog to be closed. The handlers of a child's
  exit, of the window and of \<^verbatim>\<open>before-quit\<close> do not wait.
\<close>

fun start :: "config \<Rightarrow> env \<Rightarrow> event \<Rightarrow> state \<Rightarrow> state \<times> task option" where
  "start c e AppReady s =
     (snd (issue OLLAMA_PORT (createWindow (createMenu (log ''App starting...'' s)))),
      Some (OllamaCheck
        (fst (issue OLLAMA_PORT (createWindow (createMenu (log ''App starting...'' s)))))))"
| "start c e (UiCall GetServicesStatus args) s =
     (snd (issue OLLAMA_PORT s), Some (StatusOllama (fst (issue OLLAMA_PORT s))))"
| "start c e TrayCheckServices s =
     (snd (issue OLLAMA_PORT s), Some (StatusOllama (fst (issue OLLAMA_PORT s))))"
| "start c e (UiCall RestartBackend args) s =
     begin_startBackend FromRestart
       (case backendProcess s of
          Some p \<Rightarrow> (kill p s)\<lparr>backendProcess := None\<rparr>
        | None \<Rightarrow> s)"
| "start c e (UiCall OpenFileDialog args) s = (emit ShowOpenDialog s, Some DialogOpen)"
| "start c e (UiCall GetUserDataPath args) s = (s, None)"
| "start c e (ChildExit p code) s = (child_exit p code s, None)"
| "start c e WindowClosed s = (handle c e WindowClosed s, None)"
| "start c e Activate s = (handle c e Activate s, None)"
| "start c e WindowAllClosed s = (handle c e WindowAllClosed s, None)"
| "start c e Quit s = (handle c e Quit s, None)"







section \<open>The readiness waiter and the port prober\<close>

lemma checkService_simps:
  "fst (checkService e p s) = probe_ok e (tick s) p"
  "snd (checkService e p s) = s\<lparr>tick := Suc (tick s), trace := trace s @ [Probe p]\<rparr>"
  by (simp_all add: checkService_def probe_ok_def emit_def)

lemma waitLoop_success:
  "i + k < m \<Longrightarrow> (\<forall>j<k. \<not> probe_ok e (tick s + j) p) \<Longrightarrow> probe_ok e (tick s + k) p \<Longrightarrow>
   waitLoop e p m i s =
     (True, s\<lparr>tick := tick s + k + 1,
              trace := trace s @ concat (replicate k [Probe p, Sleep 1000]) @ [Probe p]\<rparr>)"
proof (induction k arbitrary: i s)
  case 0
  then show ?case
    by (subst waitLoop.simps) (simp add: checkService_simps Let_def)
next
  case (Suc k)
  let ?s1 = "emit (Sleep 1000) (snd (checkService e p s))"
  have t: "tick ?s1 = Suc (tick s)" by (simp add: checkService_simps emit_def)
  have f: "\<not> probe_ok e (tick s) p" using Suc.prems(2) by force
  have "waitLoop e p m (Suc i) ?s1 =
     (True, ?s1\<lparr>tick := tick ?s1 + k + 1,
              trace := trace ?s1 @ concat (replicate k [Probe p, Sleep 1000]) @ [Probe p]\<rparr>)"
  proof (rule Suc.IH)
    show "Suc i + k < m" using Suc.prems(1) by simp
    show "\<forall>j<k. \<not> probe_ok e (tick ?s1 + j) p"
      using Suc.prems(2) t by (metis Suc_less_eq add_Suc_shift)
    show "probe_ok e (tick ?s1 + k) p" using Suc.prems(3) t by simp
  qed
  moreover have "i < m" using Suc.prems(1) by simp
  ultimately show ?case using f
    by (subst waitLoop.simps) (simp add: checkService_simps Let_def emit_def)
qed

lemma waitLoop_fail:
  "(\<forall>j < m - i. \<not> probe_ok e (tick s + j) p) \<Longrightarrow>
   waitLoop e p m i s =
     (False, s\<lparr>tick := tick s + (m - i),
               trace := trace s @ concat (replicate (m - i) [Probe p, Sleep 1000])\<rparr>)"
proof (induction e p m i s rule: waitLoop.induct)
  case (1 e p m i s)
  show ?case
  proof (cases "i < m")
    case False
    then show ?thesis by (subst waitLoop.simps) simp
  next
    case True
    let ?s1 = "emit (Sleep 1000) (snd (checkService e p s))"
    have t: "tick ?s1 = Suc (tick s)" by (simp add: checkService_simps emit_def)
    have f: "\<not> probe_ok e (tick s) p" using "1.prems" True by force
    have mi: "m - i = Suc (m - Suc i)" using True by simp
    have "waitLoop e p m (Suc i) ?s1 =
      (False, ?s1\<lparr>tick := tick ?s1 + (m - Suc i),
               trace := trace ?s1 @ concat (replicate (m - Suc i) [Probe p, Sleep 1000])\<rparr>)"
    proof (rule "1.IH"[OF True refl])
      show "\<not> fst (checkService e p s)" using f by (simp add: checkService_simps)
      show "\<forall>j<m - Suc i. \<not> probe_ok e (tick ?s1 + j) p"
      proof (intro allI impI)
        fix j assume "j < m - Suc i"
        then have "Suc j < m - i" using True by simp
        then have "\<not> probe_ok e (tick s + Suc j) p" using "1.prems" by blast
        then show "\<not> probe_ok e (tick ?s1 + j) p" using t by simp
      qed
    qed
    then show ?thesis using True f
      by (subst waitLoop.simps) (simp add: checkService_simps Let_def emit_def mi)
  qed
qed

lemma new_effects_append: "trace s' = trace s @ xs \<Longrightarrow> new_effects s s' = xs"
  by (simp add: new_effects_def)

lemma probes_in_rounds: "probes_in (concat (replicate k [Probe p, Sleep n])) = k"
  by (induction k) (simp_all add: probes_in_def)

lemma probes_in_append: "probes_in (xs @ ys) = probes_in xs + probes_in ys"
  by (simp add: probes_in_def)

lemma waitLoop_shape:
  "\<exists>n xs. snd (waitLoop e p m i s) = s\<lparr>tick := tick s + n, trace := trace s @ xs\<rparr> \<and>
          set xs \<subseteq> {Probe p, Sleep 1000}"
proof (induction e p m i s rule: waitLoop.induct)
  case (1 e p m i s)
  show ?case
  proof (cases "i < m")
    case False
    then have "snd (waitLoop e p m i s) = s\<lparr>tick := tick s + 0, trace := trace s @ []\<rparr>"
      by (subst waitLoop.simps) simp
    then show ?thesis by (intro exI[of _ 0] exI[of _ "[]"]) simp
  next
    case True
    show ?thesis
    proof (cases "fst (checkService e p s)")
      case ok: True
      have "snd (waitLoop e p m i s) = s\<lparr>tick := tick s + 1, trace := trace s @ [Probe p]\<rparr>"
        using True ok by (subst waitLoop.simps) (simp add: checkService_simps Let_def)
      then show ?thesis by (intro exI[of _ 1] exI[of _ "[Probe p]"]) simp
    next
      case no: False
      let ?s1 = "emit (Sleep 1000) (snd (checkService e p s))"
      from "1.IH"[OF True refl no] obtain n xs where
        ih: "snd (waitLoop e p m (Suc i) ?s1) = ?s1\<lparr>tick := tick ?s1 + n, trace := trace ?s1 @ xs\<rparr>"
        and xs: "set xs \<subseteq> {Probe p, Sleep 1000}" by blast
      have "snd (waitLoop e p m i s) =
          s\<lparr>tick := tick s + Suc n, trace := trace s @ ([Probe p, Sleep 1000] @ xs)\<rparr>"
        using True no ih
        by (subst waitLoop.simps) (simp add: checkService_simps Let_def emit_def)
      then show ?thesis using xs
        by (intro exI[of _ "Suc n"] exI[of _ "[Probe p, Sleep 1000] @ xs"]) simp
    qed
  qed
qed

lemma waitForService_shape:
  "\<exists>n xs. snd (waitForService e p m s) = s\<lparr>tick := tick s + n, trace := trace s @ xs\<rparr> \<and>
          set xs \<subseteq> {Probe p, Sleep 1000}"
  unfolding waitForService_def by (rule waitLoop_shape)

section \<open>What each operation does to the state\<close>

lemma checkOllama_up:
  "probe_ok e (tick s) OLLAMA_PORT \<Longrightarrow>
   checkOllama e s =
     (True, s\<lparr>tick := Suc (tick s),
              trace := trace s @ [Probe OLLAMA_PORT, Log ''Ollama is already running'']\<rparr>)"
  by (simp add: checkOllama_def checkService_simps Let_def log_def emit_def)

lemma checkOllama_down:
  "\<not> probe_ok e (tick s) OLLAMA_PORT \<Longrightarrow>
   checkOllama e s =
     (probe_ok e (Suc (tick s)) OLLAMA_PORT,
      s\<lparr>children := children s @ [new_child Ollama ''ollama'' [''serve''] True],
        tick := Suc (Suc (tick s)),
        trace := trace s @
          [Probe OLLAMA_PORT, Log ''Attempting to start Ollama...'',
           Spawn Ollama (length (children s)), Sleep 3000, Probe OLLAMA_PORT,
           Log (if probe_ok e (Suc (tick s)) OLLAMA_PORT then ''Ollama started successfully''
                else ''Failed to start Ollama'')]\<rparr>)"
  by (simp add: checkOllama_def checkService_simps Let_def log_def emit_def spawn_def)

lemma startBackend_up:
  "probe_ok e (tick s) BACKEND_PORT \<Longrightarrow>
   startBackend c e s =
     (True, s\<lparr>tick := Suc (tick s),
              trace := trace s @ [Probe BACKEND_PORT, Log ''Backend already running'']\<rparr>)"
  by (simp add: startBackend_def checkService_simps Let_def log_def emit_def)

lemma startBackend_down:
  assumes "\<not> probe_ok e (tick s) BACKEND_PORT"
  shows "\<exists>n xs. snd (startBackend c e s) =
      s\<lparr>backendProcess := Some (length (children s)),
        children := children s @ [new_child Backend (pythonCmd c) [''-m'', ''app.main''] False],
        tick := tick s + n,
        trace := trace s @
          [Probe BACKEND_PORT, Log ''Starting backend...'', Spawn Backend (length (children s))]
          @ xs\<rparr> \<and>
      set xs \<subseteq> {Probe BACKEND_PORT, Sleep 1000}"
proof -
  let ?s2 = "s\<lparr>backendProcess := Some (length (children s)),
        children := children s @ [new_child Backend (pythonCmd c) [''-m'', ''app.main''] False],
        tick := Suc (tick s),
        trace := trace s @
          [Probe BACKEND_PORT, Log ''Starting backend...'', Spawn Backend (length (children s))]\<rparr>"
  have sb: "startBackend c e s = waitForService e BACKEND_PORT DEFAULT_MAX_ATTEMPTS ?s2"
    using assms
    by (cases s) (simp add: startBackend_def checkService_simps Let_def log_def emit_def spawn_def)
  obtain n xs where
    w: "snd (waitForService e BACKEND_PORT DEFAULT_MAX_ATTEMPTS ?s2) =
          ?s2\<lparr>tick := tick ?s2 + n, trace := trace ?s2 @ xs\<rparr>"
    and xs: "set xs \<subseteq> {Probe BACKEND_PORT, Sleep 1000}"
    using waitForService_shape by blast
  show ?thesis using xs
    by (intro exI[of _ "Suc n"] exI[of _ xs]) (simp add: sb w)
qed


lemma startFrontend_up:
  "isDev c \<Longrightarrow> probe_ok e (tick s) FRONTEND_PORT \<Longrightarrow>
   startFrontend c e s =
     (True, s\<lparr>tick := Suc (tick s),
              trace := trace s @
                [Probe FRONTEND_PORT, Log ''Frontend dev server already running'']\<rparr>)"
  by (simp add: startFrontend_def checkService_simps Let_def log_def emit_def)

lemma startFrontend_down:
  assumes "isDev c" "\<not> probe_ok e (tick s) FRONTEND_PORT"
  shows "\<exists>n xs. snd (startFrontend c e s) =
      s\<lparr>frontendProcess := Some (length (children s)),
        children := children s @ [new_child Frontend ''npm'' [''run'', ''dev''] False],
        tick := tick s + n,
        trace := trace s @
          [Probe FRONTEND_PORT, Log ''Starting frontend dev server...'',
           Spawn Frontend (length (children s))] @ xs\<rparr> \<and>
      set xs \<subseteq> {Probe FRONTEND_PORT, Sleep 1000}"
proof -
  let ?s2 = "s\<lparr>frontendProcess := Some (length (children s)),
        children := children s @ [new_child Frontend ''npm'' [''run'', ''dev''] False],
        tick := Suc (tick s),
        trace := trace s @
          [Probe FRONTEND_PORT, Log ''Starting frontend dev server...'',
           Spawn Frontend (length (children s))]\<rparr>"
  have sb: "startFrontend c e s = waitForService e FRONTEND_PORT DEFAULT_MAX_ATTEMPTS ?s2"
    using assms
    by (cases s) (simp add: startFrontend_def checkService_simps Let_def log_def emit_def spawn_def)
  obtain n xs where
    w: "snd (waitForService e FRONTEND_PORT DEFAULT_MAX_ATTEMPTS ?s2) =
          ?s2\<lparr>tick := tick ?s2 + n, trace := trace ?s2 @ xs\<rparr>"
    and xs: "set xs \<subseteq> {Probe FRONTEND_PORT, Sleep 1000}"
    using waitForService_shape by blast
  show ?thesis using xs
    by (intro exI[of _ "Suc n"] exI[of _ xs]) (simp add: sb w)
qed

lemma checkAllServices_eq:
  "checkAllServices e s =
     ([(''ollama'', probe_ok e (tick s) OLLAMA_PORT),
       (''backend'', probe_ok e (Suc (tick s)) BACKEND_PORT)],
      s\<lparr>tick := Suc (Suc (tick s)),
        trace := trace s @ [Probe OLLAMA_PORT, Probe BACKEND_PORT] @
          (if mainWindow s
           then [Send [(''ollama'', probe_ok e (tick s) OLLAMA_PORT),
                       (''backend'', probe_ok e (Suc (tick s)) BACKEND_PORT),
                       (''frontend'', True)]]
           else [])\<rparr>)"
  by (simp add: checkAllServices_def checkService_simps Let_def emit_def)

section \<open>The stored handles stay well formed\<close>











lemma kill_fields:
  "backendProcess (kill p s) = backendProcess s"
  "frontendProcess (kill p s) = frontendProcess s"
  "mainWindow (kill p s) = mainWindow s"
  "tray (kill p s) = tray s"
  "tick (kill p s) = tick s"
  "trace (kill p s) = trace s @ [Kill p]"
  "length (children (kill p s)) = length (children s)"
  by (simp_all add: kill_def emit_def)

lemma kill_nth:
  assumes "q < length (children s)"
  shows "spawned_for (children (kill p s) ! q) = spawned_for (children s ! q)"
    and "exited (children (kill p s) ! q) = exited (children s ! q)"
    and "signalled (children (kill p s) ! q) \<longleftrightarrow>
           signalled (children s ! q) \<or> (q = p \<and> \<not> exited (children s ! q))"
  using assms by (simp_all add: kill_def emit_def nth_list_update)





















lemma bridge_simps:
  "getServicesStatus args c e s =
     (Inr (VObject (fst (checkAllServices e s))), snd (checkAllServices e s))"
  "restartBackend args c e s =
     (Inr (VBool (fst (restart_backend c e s))), snd (restart_backend c e s))"
  "openFileDialog args c e s = (Inr (VStrings (picked e)), emit ShowOpenDialog s)"
  "getUserDataPath args c e s = (Inr (VString (userDataPath c)), s)"
  by (simp_all add: getServicesStatus_def restartBackend_def openFileDialog_def
      getUserDataPath_def ipcMain_invoke_def)




section \<open>The effects of each operation\<close>

lemma killed_in_append: "killed_in (xs @ ys) = killed_in xs @ killed_in ys"
  by (induction xs rule: killed_in.induct) simp_all

lemma spawned_in_append: "spawned_in (xs @ ys) = spawned_in xs @ spawned_in ys"
  by (induction xs rule: spawned_in.induct) simp_all

lemma steps_append: "steps (xs @ ys) = steps xs @ steps ys"
  by (simp add: steps_def List.map_filter_def)

lemma steps_Cons: "steps (x # xs) = (case step_of x of None \<Rightarrow> steps xs | Some v \<Rightarrow> v # steps xs)"
  by (simp add: steps_def List.map_filter_def split: option.splits)

lemma steps_Nil: "steps [] = []"
  by (simp add: steps_def List.map_filter_def)

lemma ports_distinct:
  "OLLAMA_PORT \<noteq> BACKEND_PORT" "OLLAMA_PORT \<noteq> FRONTEND_PORT" "BACKEND_PORT \<noteq> FRONTEND_PORT"
  "BACKEND_PORT \<noteq> OLLAMA_PORT" "FRONTEND_PORT \<noteq> OLLAMA_PORT" "FRONTEND_PORT \<noteq> BACKEND_PORT"
  by (simp_all add: OLLAMA_PORT_def BACKEND_PORT_def FRONTEND_PORT_def)

lemma step_of_ports:
  "step_of (Probe OLLAMA_PORT) = Some Ollama"
  "step_of (Probe BACKEND_PORT) = Some Backend"
  "step_of (Probe FRONTEND_PORT) = Some Frontend"
  by (simp_all add: ports_distinct)

lemma waiting_quiet:
  assumes "set xs \<subseteq> {Probe p, Sleep n}"
  shows "killed_in xs = []" and "spawned_in xs = []"
  using assms by (induction xs) auto

lemma waiting_steps:
  assumes "set xs \<subseteq> {Probe p, Sleep n}" and "step_of (Probe p) = Some v"
  shows "set (steps xs) \<subseteq> {v}"
  using assms
proof (induction xs)
  case Nil
  then show ?case by (simp add: steps_Nil)
next
  case (Cons x xs)
  then have "x = Probe p \<or> x = Sleep n" by simp
  then show ?case using Cons by (auto simp: steps_Cons simp del: step_of.simps(1))
qed

lemma checkOllama_trace:
  "\<exists>xs. trace (snd (checkOllama e s)) = trace s @ Probe OLLAMA_PORT # xs \<and>
        killed_in xs = [] \<and>
        spawned_in xs = (if probe_ok e (tick s) OLLAMA_PORT then [] else [Ollama]) \<and>
        set (steps xs) \<subseteq> {Ollama}"
proof (cases "probe_ok e (tick s) OLLAMA_PORT")
  case True
  show ?thesis
    by (rule exI[of _ "[Log ''Ollama is already running'']"])
       (simp add: checkOllama_up[OF True] True steps_Cons steps_Nil)
next
  case False
  show ?thesis
    by (rule exI[of _ "[Log ''Attempting to start Ollama...'',
           Spawn Ollama (length (children s)), Sleep 3000, Probe OLLAMA_PORT,
           Log (if probe_ok e (Suc (tick s)) OLLAMA_PORT then ''Ollama started successfully''
                else ''Failed to start Ollama'')]"])
       (simp add: checkOllama_down[OF False] False steps_Cons steps_Nil step_of_ports)
qed

lemma startBackend_trace:
  "\<exists>xs. trace (snd (startBackend c e s)) = trace s @ Probe BACKEND_PORT # xs \<and>
        killed_in xs = [] \<and>
        spawned_in xs = (if probe_ok e (tick s) BACKEND_PORT then [] else [Backend]) \<and>
        set (steps xs) \<subseteq> {Backend}"
proof (cases "probe_ok e (tick s) BACKEND_PORT")
  case True
  show ?thesis
    by (rule exI[of _ "[Log ''Backend already running'']"])
       (simp add: startBackend_up[OF True] True steps_Cons steps_Nil)
next
  case False
  from startBackend_down[OF False, of c] obtain n xs where
    s': "snd (startBackend c e s) =
      s\<lparr>backendProcess := Some (length (children s)),
        children := children s @ [new_child Backend (pythonCmd c) [''-m'', ''app.main''] False],
        tick := tick s + n,
        trace := trace s @
          [Probe BACKEND_PORT, Log ''Starting backend...'', Spawn Backend (length (children s))]
          @ xs\<rparr>"
    and xs: "set xs \<subseteq> {Probe BACKEND_PORT, Sleep 1000}" by auto
  have "set (steps xs) \<subseteq> {Backend}"
    by (rule waiting_steps[OF xs step_of_ports(2)])
  then show ?thesis
    using waiting_quiet(1,2)[OF xs] False
    by (intro exI[of _ "[Log ''Starting backend...'', Spawn Backend (length (children s))] @ xs"])
       (simp add: s' steps_Cons steps_append)
qed

lemma startFrontend_trace:
  assumes "isDev c"
  shows "\<exists>xs. trace (snd (startFrontend c e s)) = trace s @ Probe FRONTEND_PORT # xs \<and>
        killed_in xs = [] \<and>
        spawned_in xs = (if probe_ok e (tick s) FRONTEND_PORT then [] else [Frontend]) \<and>
        set (steps xs) \<subseteq> {Frontend}"
proof (cases "probe_ok e (tick s) FRONTEND_PORT")
  case True
  show ?thesis
    by (rule exI[of _ "[Log ''Frontend dev server already running'']"])
       (simp add: startFrontend_up[OF assms True] True steps_Cons steps_Nil)
next
  case False
  from startFrontend_down[OF assms False] obtain n xs where
    s': "snd (startFrontend c e s) =
      s\<lparr>frontendProcess := Some (length (children s)),
        children := children s @ [new_child Frontend ''npm'' [''run'', ''dev''] False],
        tick := tick s + n,
        trace := trace s @
          [Probe FRONTEND_PORT, Log ''Starting frontend dev server...'',
           Spawn Frontend (length (children s))] @ xs\<rparr>"
    and xs: "set xs \<subseteq> {Probe FRONTEND_PORT, Sleep 1000}" by auto
  have "set (steps xs) \<subseteq> {Frontend}"
    by (rule waiting_steps[OF xs step_of_ports(3)])
  then show ?thesis
    using waiting_quiet(1,2)[OF xs] False
    by (intro exI[of _ "[Log ''Starting frontend dev server...'',
            Spawn Frontend (length (children s))] @ xs"])
       (simp add: s' steps_Cons steps_append)
qed

section \<open>Start-up\<close>

lemma emit_fields:
  "trace (emit x s) = trace s @ [x]" "tick (emit x s) = tick s"
  "children (emit x s) = children s" "backendProcess (emit x s) = backendProcess s"
  "frontendProcess (emit x s) = frontendProcess s" "mainWindow (emit x s) = mainWindow s"
  "tray (emit x s) = tray s"
  by (simp_all add: emit_def)

lemma sorted_same: "set xs \<subseteq> {v} \<Longrightarrow> sorted (map rank xs)"
  by (induction xs) auto

lemma sorted_phases:
  assumes "set a \<subseteq> {Ollama}" and "set b \<subseteq> {Backend}" and "set f \<subseteq> {Frontend}"
  shows "sorted (map rank (Ollama # a @ Backend # b @ f))"
proof -
  have "\<forall>x\<in>set a. rank x = 0" "\<forall>x\<in>set b. rank x = 1" "\<forall>x\<in>set f. rank x = 2"
    using assms by auto
  then show ?thesis
    using sorted_same[OF assms(1)] sorted_same[OF assms(2)] sorted_same[OF assms(3)]
    by (auto simp: sorted_append)
qed

lemma trace_finish:
  "trace (log m (createTray c x)) =
     trace x @ (if trayIconExists c then [CreateTray] else []) @ [Log m]"
  by (simp add: log_def createTray_def emit_fields)

lemma trace_error_box:
  "trace (if b then emit x y else y) = trace y @ (if b then [x] else [])"
  by (simp add: emit_fields)

lemma whenReady_effects:
  "\<exists>xo xb xf g1 g2 g3.
     new_effects s (whenReady c e s) =
       [Log ''App starting...'', CreateMenu, CreateWindow] @ Probe OLLAMA_PORT # xo @ g1 @
       Probe BACKEND_PORT # xb @ g2 @ xf @ g3 \<and>
     spawned_in xo = (if probe_ok e (tick s) OLLAMA_PORT then [] else [Ollama]) \<and>
     set (steps xo) \<subseteq> {Ollama} \<and> set (steps xb) \<subseteq> {Backend} \<and>
     set (steps xf) \<subseteq> {Frontend} \<and> (steps xf \<noteq> [] \<longleftrightarrow> isDev c) \<and>
     set (spawned_in xb) \<subseteq> {Backend} \<and> set (spawned_in xf) \<subseteq> {Frontend} \<and>
     steps g1 = [] \<and> steps g2 = [] \<and> steps g3 = [] \<and>
     spawned_in g1 = [] \<and> spawned_in g2 = [] \<and> spawned_in g3 = []"
proof -
  let ?s1 = "createWindow (createMenu (log ''App starting...'' s))"
  let ?ro = "checkOllama e ?s1"
  let ?g1 = "if \<not> fst ?ro then [ErrorBox ''Ollama Not Found''] else []"
  let ?s2 = "if \<not> fst ?ro then emit (ErrorBox ''Ollama Not Found'') (snd ?ro) else snd ?ro"
  let ?rb = "startBackend c e ?s2"
  let ?g2 = "if \<not> fst ?rb then [ErrorBox ''Backend Error''] else []"
  let ?s3 = "if \<not> fst ?rb then emit (ErrorBox ''Backend Error'') (snd ?rb) else snd ?rb"
  let ?s4 = "if isDev c then snd (startFrontend c e ?s3) else ?s3"
  let ?g3 = "(if trayIconExists c then [CreateTray] else []) @ [Log ''App ready'']"
  have t1: "trace ?s1 = trace s @ [Log ''App starting...'', CreateMenu, CreateWindow]"
    and k1: "tick ?s1 = tick s"
    by (simp_all add: createWindow_def createMenu_def log_def emit_def)
  obtain xo where
    to: "trace (snd ?ro) = trace ?s1 @ Probe OLLAMA_PORT # xo"
    and so: "spawned_in xo = (if probe_ok e (tick ?s1) OLLAMA_PORT then [] else [Ollama])"
    and po: "set (steps xo) \<subseteq> {Ollama}"
    using checkOllama_trace[of e ?s1] by auto
  have t2: "trace ?s2 = trace (snd ?ro) @ ?g1" by (rule trace_error_box)
  obtain xb where
    tb: "trace (snd ?rb) = trace ?s2 @ Probe BACKEND_PORT # xb"
    and sb: "spawned_in xb = (if probe_ok e (tick ?s2) BACKEND_PORT then [] else [Backend])"
    and pb: "set (steps xb) \<subseteq> {Backend}"
    using startBackend_trace[of c e ?s2] by auto
  have t3: "trace ?s3 = trace (snd ?rb) @ ?g2" by (rule trace_error_box)
  obtain xf where
    tf: "trace ?s4 = trace ?s3 @ xf"
    and sf: "set (spawned_in xf) \<subseteq> {Frontend}"
    and pf: "set (steps xf) \<subseteq> {Frontend}"
    and df: "steps xf \<noteq> [] \<longleftrightarrow> isDev c"
  proof (cases "isDev c")
    case False
    have "trace ?s4 = trace ?s3 @ []" using False by simp
    then show ?thesis using that[of "[]"] False by (simp add: steps_Nil)
  next
    case True
    from startFrontend_trace[OF True, of e ?s3] obtain xs where
      a: "trace (snd (startFrontend c e ?s3)) = trace ?s3 @ Probe FRONTEND_PORT # xs"
      and b: "spawned_in xs = (if probe_ok e (tick ?s3) FRONTEND_PORT then [] else [Frontend])"
      and d: "set (steps xs) \<subseteq> {Frontend}" by auto
    have "trace ?s4 = trace ?s3 @ Probe FRONTEND_PORT # xs" using True a by simp
    moreover have "set (spawned_in (Probe FRONTEND_PORT # xs)) \<subseteq> {Frontend}"
      using b by simp
    moreover have "set (steps (Probe FRONTEND_PORT # xs)) \<subseteq> {Frontend}"
      using d by (simp add: steps_Cons step_of_ports del: step_of.simps(1))
    moreover have "steps (Probe FRONTEND_PORT # xs) \<noteq> []"
      by (simp add: steps_Cons step_of_ports del: step_of.simps(1))
    ultimately show ?thesis using that[of "Probe FRONTEND_PORT # xs"] True by simp
  qed
  have "whenReady c e s = log ''App ready'' (createTray c ?s4)"
    by (simp only: whenReady_def Let_def)
  then have "trace (whenReady c e s) = trace ?s4 @ ?g3"
    by (simp only: trace_finish)
  then have "trace (whenReady c e s) =
      trace s @ ([Log ''App starting...'', CreateMenu, CreateWindow] @ Probe OLLAMA_PORT # xo @
        ?g1 @ Probe BACKEND_PORT # xb @ ?g2 @ xf @ ?g3)"
    by (simp only: tf t3 tb t2 to t1 append_assoc append_Cons append_Nil)
  then have "new_effects s (whenReady c e s) =
      [Log ''App starting...'', CreateMenu, CreateWindow] @ Probe OLLAMA_PORT # xo @
        ?g1 @ Probe BACKEND_PORT # xb @ ?g2 @ xf @ ?g3"
    by (rule new_effects_append)
  moreover have "steps ?g1 = []" "steps ?g2 = []" "steps ?g3 = []"
    "spawned_in ?g1 = []" "spawned_in ?g2 = []" "spawned_in ?g3 = []"
    by (simp_all add: steps_Cons steps_Nil steps_append)
  moreover have "set (spawned_in xb) \<subseteq> {Backend}" using sb by simp
  moreover have "spawned_in xo = (if probe_ok e (tick s) OLLAMA_PORT then [] else [Ollama])"
    using so by (simp only: k1)
  ultimately show ?thesis using po pb pf df sf
    by (intro exI[of _ xo] exI[of _ xb] exI[of _ xf] exI[of _ ?g1] exI[of _ ?g2]
          exI[of _ ?g3] conjI)
qed

lemma startup_order_steps:
  "sorted (map rank (steps (new_effects s (whenReady c e s)))) \<and>
   find is_probe (new_effects s (whenReady c e s)) = Some (Probe OLLAMA_PORT) \<and>
   (Ollama \<in> set (spawned_in (new_effects s (whenReady c e s))) \<longleftrightarrow>
      \<not> probe_ok e (tick s) OLLAMA_PORT) \<and>
   Probe BACKEND_PORT \<in> set (new_effects s (whenReady c e s)) \<and>
   (Frontend \<in> set (steps (new_effects s (whenReady c e s))) \<longleftrightarrow> isDev c)"
proof -
  from whenReady_effects[of s c e] obtain xo xb xf g1 g2 g3 where
    all: "new_effects s (whenReady c e s) =
       [Log ''App starting...'', CreateMenu, CreateWindow] @ Probe OLLAMA_PORT # xo @ g1 @
       Probe BACKEND_PORT # xb @ g2 @ xf @ g3 \<and>
     spawned_in xo = (if probe_ok e (tick s) OLLAMA_PORT then [] else [Ollama]) \<and>
     set (steps xo) \<subseteq> {Ollama} \<and> set (steps xb) \<subseteq> {Backend} \<and>
     set (steps xf) \<subseteq> {Frontend} \<and> (steps xf \<noteq> [] \<longleftrightarrow> isDev c) \<and>
     set (spawned_in xb) \<subseteq> {Backend} \<and> set (spawned_in xf) \<subseteq> {Frontend} \<and>
     steps g1 = [] \<and> steps g2 = [] \<and> steps g3 = [] \<and>
     spawned_in g1 = [] \<and> spawned_in g2 = [] \<and> spawned_in g3 = []"
    by (elim exE) (rule that)
  then have tr: "new_effects s (whenReady c e s) =
       [Log ''App starting...'', CreateMenu, CreateWindow] @ Probe OLLAMA_PORT # xo @ g1 @
       Probe BACKEND_PORT # xb @ g2 @ xf @ g3"
    and so: "spawned_in xo = (if probe_ok e (tick s) OLLAMA_PORT then [] else [Ollama])"
    and po: "set (steps xo) \<subseteq> {Ollama}" and pb: "set (steps xb) \<subseteq> {Backend}"
    and pf: "set (steps xf) \<subseteq> {Frontend}" and df: "steps xf \<noteq> [] \<longleftrightarrow> isDev c"
    and sb: "set (spawned_in xb) \<subseteq> {Backend}" and sf: "set (spawned_in xf) \<subseteq> {Frontend}"
    and g: "steps g1 = []" "steps g2 = []" "steps g3 = []"
      "spawned_in g1 = []" "spawned_in g2 = []" "spawned_in g3 = []"
    by blast+
  have st: "steps (new_effects s (whenReady c e s)) =
      Ollama # steps xo @ Backend # steps xb @ steps xf"
    by (simp add: tr steps_append steps_Cons steps_Nil g step_of_ports del: step_of.simps(1))
  have sp: "spawned_in (new_effects s (whenReady c e s)) =
      spawned_in xo @ spawned_in xb @ spawned_in xf"
    by (simp add: tr spawned_in_append g)
  have 1: "sorted (map rank (steps (new_effects s (whenReady c e s))))"
    unfolding st by (rule sorted_phases[OF po pb pf])
  have 2: "find is_probe (new_effects s (whenReady c e s)) = Some (Probe OLLAMA_PORT)"
    by (simp add: tr)
  have 3: "Ollama \<in> set (spawned_in (new_effects s (whenReady c e s))) \<longleftrightarrow>
      \<not> probe_ok e (tick s) OLLAMA_PORT"
    using sb sf by (auto simp: sp so)
  have 4: "Probe BACKEND_PORT \<in> set (new_effects s (whenReady c e s))"
    by (simp add: tr)
  have 5: "Frontend \<in> set (steps (new_effects s (whenReady c e s))) \<longleftrightarrow> isDev c"
  proof -
    have "Frontend \<in> set (steps xf) \<longleftrightarrow> steps xf \<noteq> []"
      using pf by (cases "steps xf") auto
    then show ?thesis using po pb df by (auto simp: st)
  qed
  show ?thesis using 1 2 3 4 5 by (intro conjI)
qed

section \<open>Restart, exit and shutdown\<close>

lemma startBackend_frame:
  "frontendProcess (snd (startBackend c e s)) = frontendProcess s"
  "mainWindow (snd (startBackend c e s)) = mainWindow s"
  "tray (snd (startBackend c e s)) = tray s"
  "take (length (children s)) (children (snd (startBackend c e s))) = children s"
proof -
  have "frontendProcess (snd (startBackend c e s)) = frontendProcess s \<and>
        mainWindow (snd (startBackend c e s)) = mainWindow s \<and>
        tray (snd (startBackend c e s)) = tray s \<and>
        take (length (children s)) (children (snd (startBackend c e s))) = children s"
  proof (cases "probe_ok e (tick s) BACKEND_PORT")
    case True
    then show ?thesis by (simp add: startBackend_up)
  next
    case False
    from startBackend_down[OF False, of c] obtain n xs where
      "snd (startBackend c e s) =
        s\<lparr>backendProcess := Some (length (children s)),
          children := children s @ [new_child Backend (pythonCmd c) [''-m'', ''app.main''] False],
          tick := tick s + n,
          trace := trace s @
            [Probe BACKEND_PORT, Log ''Starting backend...'', Spawn Backend (length (children s))]
            @ xs\<rparr>" by auto
    then show ?thesis by simp
  qed
  then show "frontendProcess (snd (startBackend c e s)) = frontendProcess s"
    "mainWindow (snd (startBackend c e s)) = mainWindow s"
    "tray (snd (startBackend c e s)) = tray s"
    "take (length (children s)) (children (snd (startBackend c e s))) = children s"
    by simp_all
qed

lemma kill_exited: "map exited (children (kill p s)) = map exited (children s)"
  by (rule nth_equalityI) (simp_all add: kill_fields kill_nth)

text \<open>The first step of the restart handler and of the shutdown handler.\<close>

lemma stop_backend_fields:
  fixes s defines "s0 \<equiv> (case backendProcess s of
                       Some p \<Rightarrow> (kill p s)\<lparr>backendProcess := None\<rparr> | None \<Rightarrow> s)"
  shows "trace s0 = trace s @ (case backendProcess s of Some p \<Rightarrow> [Kill p] | None \<Rightarrow> [])"
    and "tick s0 = tick s" and "backendProcess s0 = None"
    and "frontendProcess s0 = frontendProcess s"
    and "length (children s0) = length (children s)"
    and "map exited (children s0) = map exited (children s)"
  by (simp_all add: s0_def kill_fields kill_exited split: option.splits)

lemma stop_frontend_fields:
  fixes s defines "s0 \<equiv> (case frontendProcess s of
                       Some p \<Rightarrow> (kill p s)\<lparr>frontendProcess := None\<rparr> | None \<Rightarrow> s)"
  shows "trace s0 = trace s @ (case frontendProcess s of Some p \<Rightarrow> [Kill p] | None \<Rightarrow> [])"
    and "tick s0 = tick s" and "frontendProcess s0 = None"
    and "backendProcess s0 = backendProcess s"
    and "length (children s0) = length (children s)"
    and "map exited (children s0) = map exited (children s)"
  by (simp_all add: s0_def kill_fields kill_exited split: option.splits)

lemma restart_backend_effects:
  "\<exists>xs. new_effects s (snd (restart_backend c e s)) =
          (case backendProcess s of Some p \<Rightarrow> [Kill p] | None \<Rightarrow> []) @
          Probe BACKEND_PORT # xs \<and>
        killed_in xs = [] \<and>
        spawned_in xs = (if probe_ok e (tick s) BACKEND_PORT then [] else [Backend])"
proof -
  let ?s0 = "case backendProcess s of
               Some p \<Rightarrow> (kill p s)\<lparr>backendProcess := None\<rparr> | None \<Rightarrow> s"
  from startBackend_trace[of c e ?s0] obtain xs where
    t: "trace (snd (startBackend c e ?s0)) = trace ?s0 @ Probe BACKEND_PORT # xs"
    and k: "killed_in xs = []"
    and sp: "spawned_in xs = (if probe_ok e (tick ?s0) BACKEND_PORT then [] else [Backend])"
    by auto
  have "trace (snd (restart_backend c e s)) =
      trace s @ ((case backendProcess s of Some p \<Rightarrow> [Kill p] | None \<Rightarrow> []) @
        Probe BACKEND_PORT # xs)"
    unfolding restart_backend_def t by (simp only: stop_backend_fields(1) append_assoc)
  then have "new_effects s (snd (restart_backend c e s)) =
      (case backendProcess s of Some p \<Rightarrow> [Kill p] | None \<Rightarrow> []) @ Probe BACKEND_PORT # xs"
    by (rule new_effects_append)
  moreover have "spawned_in xs = (if probe_ok e (tick s) BACKEND_PORT then [] else [Backend])"
    using sp by (simp only: stop_backend_fields(2))
  ultimately show ?thesis using k by (intro exI[of _ xs] conjI)
qed

lemma restart_backend_frame:
  "frontendProcess (snd (restart_backend c e s)) = frontendProcess s"
  "map exited (take (length (children s)) (children (snd (restart_backend c e s)))) =
     map exited (children s)"
proof -
  let ?s0 = "case backendProcess s of
               Some p \<Rightarrow> (kill p s)\<lparr>backendProcess := None\<rparr> | None \<Rightarrow> s"
  show "frontendProcess (snd (restart_backend c e s)) = frontendProcess s"
    unfolding restart_backend_def
    by (simp only: startBackend_frame(1) stop_backend_fields(4))
  have "take (length (children s)) (children (snd (startBackend c e ?s0))) = children ?s0"
    using startBackend_frame(4)[where s="?s0" and c=c and e=e] by (simp only: stop_backend_fields(5))
  then show "map exited (take (length (children s)) (children (snd (restart_backend c e s)))) =
     map exited (children s)"
    unfolding restart_backend_def by (simp only: stop_backend_fields(6))
qed

lemma before_quit_eq:
  "trace (before_quit s) =
     trace s @ Log ''App quitting...'' #
       (case backendProcess s of Some p \<Rightarrow> [Kill p] | None \<Rightarrow> []) @
       (case frontendProcess s of Some q \<Rightarrow> [Kill q] | None \<Rightarrow> [])"
  "backendProcess (before_quit s) = None"
  "frontendProcess (before_quit s) = None"
  "map exited (children (before_quit s)) = map exited (children s)"
  by (simp_all add: before_quit_def Let_def log_def emit_fields kill_fields kill_exited
      split: option.splits)

lemmas model_defs =
  whenReady_def createWindow_def createMenu_def createTray_def log_def emit_def
  checkOllama_def startBackend_def startFrontend_def checkService_def spawn_def new_child_def
  waitForService_def waitLoop.simps DEFAULT_MAX_ATTEMPTS_def pythonCmd_def
  restart_backend_def kill_def before_quit_def child_exit_def backend_on_exit_def
  checkAllServices_def bridge_simps quits_def
  env_of_def production_def development_def init_def
  OLLAMA_PORT_def BACKEND_PORT_def FRONTEND_PORT_def Let_def new_effects_def

lemma new_effects_same: "new_effects s s = []"
  by (simp add: new_effects_def)

lemma child_exit_trace:
  "trace (child_exit p code s) = trace s \<or> trace (child_exit p code s) = trace s @ [LogExit code]"
  by (simp add: child_exit_def backend_on_exit_def emit_def)

lemma handle_no_spawn:
  assumes "ev \<noteq> AppReady" and "\<forall>args. ev \<noteq> UiCall RestartBackend args"
  shows "spawned_in (new_effects s (handle c e ev s)) = []"
proof (cases ev)
  case AppReady
  then show ?thesis using assms(1) by simp
next
  case (UiCall f args)
  then have "f \<noteq> RestartBackend" using assms(2) by auto
  then show ?thesis using UiCall
    by (cases f) (simp_all add: bridge_simps checkAllServices_eq new_effects_def emit_def)
next
  case TrayCheckServices
  then show ?thesis by (simp add: checkAllServices_eq new_effects_def)
next
  case (ChildExit p code)
  then show ?thesis using child_exit_trace[of p code s]
    by (auto simp: new_effects_def)
next
  case WindowClosed
  then show ?thesis by (simp add: new_effects_def)
next
  case Activate
  then show ?thesis by (simp add: new_effects_def createWindow_def emit_def)
next
  case WindowAllClosed
  then show ?thesis
    by (simp add: new_effects_def before_quit_eq(1) spawned_in_append split: option.splits)
next
  case Quit
  then show ?thesis
    by (simp add: new_effects_def before_quit_eq(1) spawned_in_append split: option.splits)
qed

section \<open>What start-up starts\<close>

lemma waitLoop_shape_tick:
  "\<exists>xs. snd (waitLoop e p m i s) = s\<lparr>tick := tick s + probes_in xs, trace := trace s @ xs\<rparr> \<and>
        set xs \<subseteq> {Probe p, Sleep 1000}"
proof (induction e p m i s rule: waitLoop.induct)
  case (1 e p m i s)
  show ?case
  proof (cases "i < m")
    case False
    then have "snd (waitLoop e p m i s) =
        s\<lparr>tick := tick s + probes_in [], trace := trace s @ []\<rparr>"
      by (subst waitLoop.simps) (simp add: probes_in_def)
    then show ?thesis by (intro exI[of _ "[]"]) simp
  next
    case True
    show ?thesis
    proof (cases "fst (checkService e p s)")
      case ok: True
      have "snd (waitLoop e p m i s) =
          s\<lparr>tick := tick s + probes_in [Probe p], trace := trace s @ [Probe p]\<rparr>"
        using True ok
        by (subst waitLoop.simps) (simp add: checkService_simps Let_def probes_in_def)
      then show ?thesis by (intro exI[of _ "[Probe p]"]) simp
    next
      case no: False
      let ?s1 = "emit (Sleep 1000) (snd (checkService e p s))"
      from "1.IH"[OF True refl no] obtain xs where
        ih: "snd (waitLoop e p m (Suc i) ?s1) =
               ?s1\<lparr>tick := tick ?s1 + probes_in xs, trace := trace ?s1 @ xs\<rparr>"
        and xs: "set xs \<subseteq> {Probe p, Sleep 1000}" by blast
      have "snd (waitLoop e p m i s) =
          s\<lparr>tick := tick s + probes_in ([Probe p, Sleep 1000] @ xs),
            trace := trace s @ ([Probe p, Sleep 1000] @ xs)\<rparr>"
        using True no ih
        by (subst waitLoop.simps)
           (simp add: checkService_simps Let_def emit_def probes_in_def)
      then show ?thesis using xs
        by (intro exI[of _ "[Probe p, Sleep 1000] @ xs"]) simp
    qed
  qed
qed

lemma waiting_no_other_probe:
  "set xs \<subseteq> {Probe p, Sleep n} \<Longrightarrow> q \<noteq> p \<Longrightarrow> Probe q \<notin> set xs"
  by auto

lemma probes_in_Cons:
  "probes_in (x # xs) = (if is_probe x then Suc (probes_in xs) else probes_in xs)"
  by (simp add: probes_in_def)

lemma probes_in_Nil: "probes_in [] = 0"
  by (simp add: probes_in_def)

lemma probes_before_first:
  "Probe p \<notin> set xs \<Longrightarrow> probes_before p (xs @ Probe p # ys) = probes_in xs"
proof -
  assume "Probe p \<notin> set xs"
  then have "takeWhile (\<lambda>x. x \<noteq> Probe p) (xs @ Probe p # ys) =
      xs @ takeWhile (\<lambda>x. x \<noteq> Probe p) (Probe p # ys)"
    by (intro takeWhile_append2) auto
  then show ?thesis by (simp add: probes_before_def)
qed

lemma checkOllama_stage:
  fixes e s
  defines "xs \<equiv> tl (new_effects s (snd (checkOllama e s)))"
  shows "trace (snd (checkOllama e s)) = trace s @ Probe OLLAMA_PORT # xs"
    and "tick (snd (checkOllama e s)) = Suc (tick s + probes_in xs)"
    and "children (snd (checkOllama e s)) =
           children s @ (if probe_ok e (tick s) OLLAMA_PORT then []
                         else [new_child Ollama ''ollama'' [''serve''] True])"
    and "backendProcess (snd (checkOllama e s)) = backendProcess s"
    and "frontendProcess (snd (checkOllama e s)) = frontendProcess s"
    and "spawned_in xs = (if probe_ok e (tick s) OLLAMA_PORT then [] else [Ollama])"
    and "Probe BACKEND_PORT \<notin> set xs" and "Probe FRONTEND_PORT \<notin> set xs"
proof -
  have "trace (snd (checkOllama e s)) = trace s @ Probe OLLAMA_PORT # xs \<and>
     tick (snd (checkOllama e s)) = Suc (tick s + probes_in xs) \<and>
     children (snd (checkOllama e s)) =
           children s @ (if probe_ok e (tick s) OLLAMA_PORT then []
                         else [new_child Ollama ''ollama'' [''serve''] True]) \<and>
     backendProcess (snd (checkOllama e s)) = backendProcess s \<and>
     frontendProcess (snd (checkOllama e s)) = frontendProcess s \<and>
     spawned_in xs = (if probe_ok e (tick s) OLLAMA_PORT then [] else [Ollama]) \<and>
     Probe BACKEND_PORT \<notin> set xs \<and> Probe FRONTEND_PORT \<notin> set xs"
  proof (cases "probe_ok e (tick s) OLLAMA_PORT")
    case True
    then show ?thesis
      by (simp add: xs_def checkOllama_up new_effects_def probes_in_Cons probes_in_Nil)
  next
    case False
    then show ?thesis
      by (simp add: xs_def checkOllama_down new_effects_def probes_in_Cons probes_in_Nil
          ports_distinct)
  qed
  then show "trace (snd (checkOllama e s)) = trace s @ Probe OLLAMA_PORT # xs"
    and "tick (snd (checkOllama e s)) = Suc (tick s + probes_in xs)"
    and "children (snd (checkOllama e s)) =
           children s @ (if probe_ok e (tick s) OLLAMA_PORT then []
                         else [new_child Ollama ''ollama'' [''serve''] True])"
    and "backendProcess (snd (checkOllama e s)) = backendProcess s"
    and "frontendProcess (snd (checkOllama e s)) = frontendProcess s"
    and "spawned_in xs = (if probe_ok e (tick s) OLLAMA_PORT then [] else [Ollama])"
    and "Probe BACKEND_PORT \<notin> set xs" and "Probe FRONTEND_PORT \<notin> set xs"
    by simp_all
qed

lemma startBackend_stage:
  fixes c e s
  defines "xs \<equiv> tl (new_effects s (snd (startBackend c e s)))"
  shows "trace (snd (startBackend c e s)) = trace s @ Probe BACKEND_PORT # xs"
    and "tick (snd (startBackend c e s)) = Suc (tick s + probes_in xs)"
    and "children (snd (startBackend c e s)) =
           children s @ (if probe_ok e (tick s) BACKEND_PORT then []
                         else [new_child Backend (pythonCmd c) [''-m'', ''app.main''] False])"
    and "backendProcess (snd (startBackend c e s)) =
           (if probe_ok e (tick s) BACKEND_PORT then backendProcess s
            else Some (length (children s)))"
    and "frontendProcess (snd (startBackend c e s)) = frontendProcess s"
    and "spawned_in xs = (if probe_ok e (tick s) BACKEND_PORT then [] else [Backend])"
    and "Probe FRONTEND_PORT \<notin> set xs"
proof -
  have "trace (snd (startBackend c e s)) = trace s @ Probe BACKEND_PORT # xs \<and>
     tick (snd (startBackend c e s)) = Suc (tick s + probes_in xs) \<and>
     children (snd (startBackend c e s)) =
           children s @ (if probe_ok e (tick s) BACKEND_PORT then []
                         else [new_child Backend (pythonCmd c) [''-m'', ''app.main''] False]) \<and>
     backendProcess (snd (startBackend c e s)) =
           (if probe_ok e (tick s) BACKEND_PORT then backendProcess s
            else Some (length (children s))) \<and>
     frontendProcess (snd (startBackend c e s)) = frontendProcess s \<and>
     spawned_in xs = (if probe_ok e (tick s) BACKEND_PORT then [] else [Backend]) \<and>
     Probe FRONTEND_PORT \<notin> set xs"
  proof (cases "probe_ok e (tick s) BACKEND_PORT")
    case True
    then show ?thesis
      by (simp add: xs_def startBackend_up new_effects_def probes_in_Cons probes_in_Nil)
  next
    case False
    let ?s2 = "s\<lparr>backendProcess := Some (length (children s)),
        children := children s @ [new_child Backend (pythonCmd c) [''-m'', ''app.main''] False],
        tick := Suc (tick s),
        trace := trace s @
          [Probe BACKEND_PORT, Log ''Starting backend...'', Spawn Backend (length (children s))]\<rparr>"
    have sb: "startBackend c e s = waitForService e BACKEND_PORT DEFAULT_MAX_ATTEMPTS ?s2"
      using False
      by (cases s)
         (simp add: startBackend_def checkService_simps Let_def log_def emit_def spawn_def)
    obtain ys where
      w: "snd (waitLoop e BACKEND_PORT DEFAULT_MAX_ATTEMPTS 0 ?s2) =
            ?s2\<lparr>tick := tick ?s2 + probes_in ys, trace := trace ?s2 @ ys\<rparr>"
      and ys: "set ys \<subseteq> {Probe BACKEND_PORT, Sleep 1000}"
      using waitLoop_shape_tick by blast
    have x: "xs = [Log ''Starting backend...'', Spawn Backend (length (children s))] @ ys"
      by (simp add: xs_def sb waitForService_def w new_effects_def)
    have "Probe FRONTEND_PORT \<notin> set ys"
      by (rule waiting_no_other_probe[OF ys]) (rule ports_distinct)
    then show ?thesis using False waiting_quiet[OF ys]
      by (simp add: x sb waitForService_def w probes_in_Cons spawned_in_append)
  qed
  then show "trace (snd (startBackend c e s)) = trace s @ Probe BACKEND_PORT # xs"
    and "tick (snd (startBackend c e s)) = Suc (tick s + probes_in xs)"
    and "children (snd (startBackend c e s)) =
           children s @ (if probe_ok e (tick s) BACKEND_PORT then []
                         else [new_child Backend (pythonCmd c) [''-m'', ''app.main''] False])"
    and "backendProcess (snd (startBackend c e s)) =
           (if probe_ok e (tick s) BACKEND_PORT then backendProcess s
            else Some (length (children s)))"
    and "frontendProcess (snd (startBackend c e s)) = frontendProcess s"
    and "spawned_in xs = (if probe_ok e (tick s) BACKEND_PORT then [] else [Backend])"
    and "Probe FRONTEND_PORT \<notin> set xs"
    by simp_all
qed

lemma startFrontend_stage:
  fixes c e s
  assumes dev: "isDev c"
  defines "xs \<equiv> tl (new_effects s (snd (startFrontend c e s)))"
  shows "trace (snd (startFrontend c e s)) = trace s @ Probe FRONTEND_PORT # xs"
    and "children (snd (startFrontend c e s)) =
           children s @ (if probe_ok e (tick s) FRONTEND_PORT then []
                         else [new_child Frontend ''npm'' [''run'', ''dev''] False])"
    and "backendProcess (snd (startFrontend c e s)) = backendProcess s"
    and "frontendProcess (snd (startFrontend c e s)) =
           (if probe_ok e (tick s) FRONTEND_PORT then frontendProcess s
            else Some (length (children s)))"
    and "spawned_in xs = (if probe_ok e (tick s) FRONTEND_PORT then [] else [Frontend])"
proof -
  have "trace (snd (startFrontend c e s)) = trace s @ Probe FRONTEND_PORT # xs \<and>
     children (snd (startFrontend c e s)) =
           children s @ (if probe_ok e (tick s) FRONTEND_PORT then []
                         else [new_child Frontend ''npm'' [''run'', ''dev''] False]) \<and>
     backendProcess (snd (startFrontend c e s)) = backendProcess s \<and>
     frontendProcess (snd (startFrontend c e s)) =
           (if probe_ok e (tick s) FRONTEND_PORT then frontendProcess s
            else Some (length (children s))) \<and>
     spawned_in xs = (if probe_ok e (tick s) FRONTEND_PORT then [] else [Frontend])"
  proof (cases "probe_ok e (tick s) FRONTEND_PORT")
    case True
    then show ?thesis
      by (simp add: xs_def startFrontend_up[OF dev] new_effects_def)
  next
    case False
    let ?s2 = "s\<lparr>frontendProcess := Some (length (children s)),
        children := children s @ [new_child Frontend ''npm'' [''run'', ''dev''] False],
        tick := Suc (tick s),
        trace := trace s @
          [Probe FRONTEND_PORT, Log ''Starting frontend dev server...'',
           Spawn Frontend (length (children s))]\<rparr>"
    have sb: "startFrontend c e s = waitForService e FRONTEND_PORT DEFAULT_MAX_ATTEMPTS ?s2"
      using False dev
      by (cases s)
         (simp add: startFrontend_def checkService_simps Let_def log_def emit_def spawn_def)
    obtain ys where
      w: "snd (waitLoop e FRONTEND_PORT DEFAULT_MAX_ATTEMPTS 0 ?s2) =
            ?s2\<lparr>tick := tick ?s2 + probes_in ys, trace := trace ?s2 @ ys\<rparr>"
      and ys: "set ys \<subseteq> {Probe FRONTEND_PORT, Sleep 1000}"
      using waitLoop_shape_tick by blast
    have x: "xs = [Log ''Starting frontend dev server...'',
                   Spawn Frontend (length (children s))] @ ys"
      by (simp add: xs_def sb waitForService_def w new_effects_def)
    show ?thesis using False waiting_quiet[OF ys]
      by (simp add: x sb waitForService_def w spawned_in_append)
  qed
  then show "trace (snd (startFrontend c e s)) = trace s @ Probe FRONTEND_PORT # xs"
    and "children (snd (startFrontend c e s)) =
           children s @ (if probe_ok e (tick s) FRONTEND_PORT then []
                         else [new_child Frontend ''npm'' [''run'', ''dev''] False])"
    and "backendProcess (snd (startFrontend c e s)) = backendProcess s"
    and "frontendProcess (snd (startFrontend c e s)) =
           (if probe_ok e (tick s) FRONTEND_PORT then frontendProcess s
            else Some (length (children s)))"
    and "spawned_in xs = (if probe_ok e (tick s) FRONTEND_PORT then [] else [Frontend])"
    by simp_all
qed

lemma error_box_fields:
  "tick (if b then emit x y else y) = tick y"
  "children (if b then emit x y else y) = children y"
  "backendProcess (if b then emit x y else y) = backendProcess y"
  "frontendProcess (if b then emit x y else y) = frontendProcess y"
  by (simp_all add: emit_fields)

lemma finish_fields:
  "children (log m (createTray c x)) = children x"
  "backendProcess (log m (createTray c x)) = backendProcess x"
  "frontendProcess (log m (createTray c x)) = frontendProcess x"
  by (simp_all add: log_def createTray_def emit_fields)

lemma quiet_glue:
  "spawned_in (if b then [ErrorBox x] else []) = []"
  "probes_in (if b then [ErrorBox x] else []) = 0"
  "Probe p \<notin> set (if b then [ErrorBox x] else [])"
  "spawned_in ((if t then [CreateTray] else []) @ [Log m]) = []"
  by (simp_all add: probes_in_Cons probes_in_Nil)

lemma whenReady_started:
  fixes c e s
  defines "tr \<equiv> new_effects s (whenReady c e s)"
  defines "a \<equiv> probe_ok e (tick s) OLLAMA_PORT"
  defines "b \<equiv> first_probe_ok e s tr BACKEND_PORT"
  defines "f \<equiv> first_probe_ok e s tr FRONTEND_PORT"
  shows "spawned_in tr =
           (if a then [] else [Ollama]) @ (if b then [] else [Backend]) @
           (if isDev c \<and> \<not> f then [Frontend] else [])"
    and "children (whenReady c e s) =
           children s @
           (if a then [] else [new_child Ollama ''ollama'' [''serve''] True]) @
           (if b then [] else [new_child Backend (pythonCmd c) [''-m'', ''app.main''] False]) @
           (if isDev c \<and> \<not> f then [new_child Frontend ''npm'' [''run'', ''dev''] False]
            else [])"
    and "backendProcess (whenReady c e s) =
           (if b then backendProcess s
            else Some (length (children s) + (if a then 0 else 1)))"
    and "frontendProcess (whenReady c e s) =
           (if isDev c \<and> \<not> f
            then Some (length (children s) + (if a then 0 else 1) + (if b then 0 else 1))
            else frontendProcess s)"
proof -
  let ?pre = "[Log ''App starting...'', CreateMenu, CreateWindow]"
  let ?s1 = "createWindow (createMenu (log ''App starting...'' s))"
  let ?ro = "checkOllama e ?s1"
  let ?g1 = "if \<not> fst ?ro then [ErrorBox ''Ollama Not Found''] else []"
  let ?s2 = "if \<not> fst ?ro then emit (ErrorBox ''Ollama Not Found'') (snd ?ro) else snd ?ro"
  let ?rb = "startBackend c e ?s2"
  let ?g2 = "if \<not> fst ?rb then [ErrorBox ''Backend Error''] else []"
  let ?s3 = "if \<not> fst ?rb then emit (ErrorBox ''Backend Error'') (snd ?rb) else snd ?rb"
  let ?s4 = "if isDev c then snd (startFrontend c e ?s3) else ?s3"
  let ?g3 = "(if trayIconExists c then [CreateTray] else []) @ [Log ''App ready'']"
  define xo where "xo = tl (new_effects ?s1 (snd ?ro))"
  define xb where "xb = tl (new_effects ?s2 (snd ?rb))"
  define xf where "xf = tl (new_effects ?s3 (snd (startFrontend c e ?s3)))"
  define bo where "bo = probe_ok e (tick ?s2) BACKEND_PORT"
  define fo where "fo = probe_ok e (tick ?s3) FRONTEND_PORT"
  define fx where "fx = (if isDev c then Probe FRONTEND_PORT # xf else [])"
  have s1: "trace ?s1 = trace s @ ?pre" "tick ?s1 = tick s" "children ?s1 = children s"
    "backendProcess ?s1 = backendProcess s" "frontendProcess ?s1 = frontendProcess s"
    by (simp_all add: createWindow_def createMenu_def log_def emit_def)
  note o = checkOllama_stage[where e=e and s="?s1", folded xo_def, unfolded s1]
  have s2: "trace ?s2 = trace s @ ?pre @ Probe OLLAMA_PORT # xo @ ?g1"
    "tick ?s2 = Suc (tick s + probes_in xo)"
    "children ?s2 = children s @ (if a then [] else [new_child Ollama ''ollama'' [''serve''] True])"
    "backendProcess ?s2 = backendProcess s" "frontendProcess ?s2 = frontendProcess s"
    by (simp_all only: trace_error_box error_box_fields o a_def append_assoc append_Cons
        append_Nil)
  note bk = startBackend_stage[where c=c and e=e and s="?s2", folded xb_def bo_def]
  have s3: "trace ?s3 = trace ?s2 @ Probe BACKEND_PORT # xb @ ?g2"
    "tick ?s3 = Suc (tick ?s2 + probes_in xb)"
    "children ?s3 = children ?s2 @
        (if bo then [] else [new_child Backend (pythonCmd c) [''-m'', ''app.main''] False])"
    "backendProcess ?s3 = (if bo then backendProcess ?s2 else Some (length (children ?s2)))"
    "frontendProcess ?s3 = frontendProcess ?s2"
    by (simp_all only: trace_error_box error_box_fields bk append_assoc append_Cons
        append_Nil)
  have s4c: "trace ?s4 = trace ?s3 @ fx \<and>
        children ?s4 = children ?s3 @
          (if isDev c \<and> \<not> fo then [new_child Frontend ''npm'' [''run'', ''dev''] False]
           else []) \<and>
        backendProcess ?s4 = backendProcess ?s3 \<and>
        frontendProcess ?s4 =
          (if isDev c \<and> \<not> fo then Some (length (children ?s3)) else frontendProcess ?s3) \<and>
        spawned_in fx = (if isDev c \<and> \<not> fo then [Frontend] else [])"
  proof (cases "isDev c")
    case False
    then show ?thesis by (simp add: fx_def)
  next
    case True
    note fr = startFrontend_stage[OF True, where e=e and s="?s3", folded xf_def fo_def]
    show ?thesis using True fr by (simp add: fx_def)
  qed
  have s4: "trace ?s4 = trace ?s3 @ fx"
    "children ?s4 = children ?s3 @
        (if isDev c \<and> \<not> fo then [new_child Frontend ''npm'' [''run'', ''dev''] False] else [])"
    "backendProcess ?s4 = backendProcess ?s3"
    "frontendProcess ?s4 =
        (if isDev c \<and> \<not> fo then Some (length (children ?s3)) else frontendProcess ?s3)"
    "spawned_in fx = (if isDev c \<and> \<not> fo then [Frontend] else [])"
    using s4c by blast+
  have w: "whenReady c e s = log ''App ready'' (createTray c ?s4)"
    by (simp only: whenReady_def Let_def)
  have "trace (whenReady c e s) =
      trace s @ (?pre @ Probe OLLAMA_PORT # xo @ ?g1 @ Probe BACKEND_PORT # xb @ ?g2 @ fx @ ?g3)"
    unfolding w trace_finish s4(1) s3(1) s2(1)
    by (simp only: append_assoc append_Cons append_Nil)
  then have tr: "tr = ?pre @ Probe OLLAMA_PORT # xo @ ?g1 @ Probe BACKEND_PORT # xb @ ?g2 @
      fx @ ?g3"
    unfolding tr_def by (rule new_effects_append)
  have nb: "Probe BACKEND_PORT \<notin> set (?pre @ Probe OLLAMA_PORT # xo @ ?g1)"
    using o(7) by (simp add: ports_distinct quiet_glue)
  have "tr = (?pre @ Probe OLLAMA_PORT # xo @ ?g1) @
      Probe BACKEND_PORT # (xb @ ?g2 @ fx @ ?g3)"
    unfolding tr by (simp only: append_assoc append_Cons append_Nil)
  then have "probes_before BACKEND_PORT tr = probes_in (?pre @ Probe OLLAMA_PORT # xo @ ?g1)"
    using probes_before_first[OF nb] by simp
  then have pb: "probes_before BACKEND_PORT tr = Suc (probes_in xo)"
    by (simp add: probes_in_append probes_in_Cons probes_in_Nil quiet_glue)
  have b: "b = bo"
    by (simp add: b_def bo_def first_probe_ok_def pb s2(2))
  have f: "isDev c \<Longrightarrow> f = fo"
  proof -
    assume dev: "isDev c"
    have nf: "Probe FRONTEND_PORT \<notin>
        set (?pre @ Probe OLLAMA_PORT # xo @ ?g1 @ Probe BACKEND_PORT # xb @ ?g2)"
      using o(8) bk(7) by (simp add: ports_distinct quiet_glue)
    have "tr = (?pre @ Probe OLLAMA_PORT # xo @ ?g1 @ Probe BACKEND_PORT # xb @ ?g2) @
        Probe FRONTEND_PORT # (xf @ ?g3)"
      unfolding tr using dev by (simp add: fx_def)
    then have "probes_before FRONTEND_PORT tr =
        probes_in (?pre @ Probe OLLAMA_PORT # xo @ ?g1 @ Probe BACKEND_PORT # xb @ ?g2)"
      using probes_before_first[OF nf] by simp
    then have "probes_before FRONTEND_PORT tr = Suc (probes_in xo) + Suc (probes_in xb)"
      by (simp add: probes_in_append probes_in_Cons probes_in_Nil quiet_glue)
    then show "f = fo"
      by (simp add: f_def fo_def first_probe_ok_def s3(2) s2(2) add.assoc)
  qed
  have ff: "(isDev c \<and> \<not> f) = (isDev c \<and> \<not> fo)" using f by blast
  show "spawned_in tr =
           (if a then [] else [Ollama]) @ (if b then [] else [Backend]) @
           (if isDev c \<and> \<not> f then [Frontend] else [])"
    unfolding tr ff b
    using o(6) bk(6) s4(5)
    by (simp add: spawned_in_append quiet_glue a_def)
  show "children (whenReady c e s) =
           children s @
           (if a then [] else [new_child Ollama ''ollama'' [''serve''] True]) @
           (if b then [] else [new_child Backend (pythonCmd c) [''-m'', ''app.main''] False]) @
           (if isDev c \<and> \<not> f then [new_child Frontend ''npm'' [''run'', ''dev''] False]
            else [])"
    unfolding w finish_fields ff b s4(2) s3(3) s2(3) by simp
  show "backendProcess (whenReady c e s) =
           (if b then backendProcess s
            else Some (length (children s) + (if a then 0 else 1)))"
    unfolding w finish_fields b s4(3) s3(4) s2(3) s2(4) by simp
  show "frontendProcess (whenReady c e s) =
           (if isDev c \<and> \<not> f
            then Some (length (children s) + (if a then 0 else 1) + (if b then 0 else 1))
            else frontendProcess s)"
    unfolding w finish_fields ff b s4(4) s3(3) s3(5) s2(3) s2(5) by simp
qed

section \<open>The handlers step by step\<close>


























section \<open>A handler that runs to its end\<close>





















section \<open>The claims of the specification\<close>

subsection \<open>Restart of the backend\<close>




subsection \<open>The readiness waiter\<close>

text \<open>
  Claim C2. For every port, every \<open>maxAttempts \<ge> 1\<close> and every sequence of probe
  outcomes: when the port first answers on attempt \<open>k \<le> maxAttempts\<close>, the waiter returns
  \<^verbatim>\<open>true\<close> after exactly \<open>k\<close> probes (\<open>k - 1\<close> rounds of a failed probe and a sleep,
  then the probe that succeeds, and nothing after it); when none of the first
  \<open>maxAttempts\<close> probes answers, it returns \<^verbatim>\<open>false\<close> after exactly \<open>maxAttempts\<close>
  probes, each followed by a sleep.
\<close>

theorem C2_waitForService:
  assumes "1 \<le> maxAttempts"
  shows "(\<forall>k. 1 \<le> k \<and> k \<le> maxAttempts \<and>
              (\<forall>j<k - 1. \<not> probe_ok e (tick s + j) p) \<and> probe_ok e (tick s + (k - 1)) p \<longrightarrow>
            fst (waitForService e p maxAttempts s) = True \<and>
            probes_in (new_effects s (snd (waitForService e p maxAttempts s))) = k \<and>
            new_effects s (snd (waitForService e p maxAttempts s)) =
              concat (replicate (k - 1) [Probe p, Sleep 1000]) @ [Probe p]) \<and>
         ((\<forall>j<maxAttempts. \<not> probe_ok e (tick s + j) p) \<longrightarrow>
            fst (waitForService e p maxAttempts s) = False \<and>
            probes_in (new_effects s (snd (waitForService e p maxAttempts s))) = maxAttempts \<and>
            new_effects s (snd (waitForService e p maxAttempts s)) =
              concat (replicate maxAttempts [Probe p, Sleep 1000]))"
proof (intro conjI allI impI)
  fix k
  assume a: "1 \<le> k \<and> k \<le> maxAttempts \<and>
     (\<forall>j<k - 1. \<not> probe_ok e (tick s + j) p) \<and> probe_ok e (tick s + (k - 1)) p"
  then have k0: "1 \<le> k" "k \<le> maxAttempts" by blast+
  have k: "0 + (k - 1) < maxAttempts" "\<forall>j<k - 1. \<not> probe_ok e (tick s + j) p"
    "probe_ok e (tick s + (k - 1)) p"
    using k0 a by (arith, blast, blast)
  have w: "waitForService e p maxAttempts s =
     (True, s\<lparr>tick := tick s + (k - 1) + 1,
              trace := trace s @ concat (replicate (k - 1) [Probe p, Sleep 1000]) @ [Probe p]\<rparr>)"
    unfolding waitForService_def by (rule waitLoop_success[OF k(1) k(2) k(3)])
  show "fst (waitForService e p maxAttempts s) = True" by (simp add: w)
  have n: "new_effects s (snd (waitForService e p maxAttempts s)) =
     concat (replicate (k - 1) [Probe p, Sleep 1000]) @ [Probe p]"
    by (rule new_effects_append) (simp add: w)
  show "new_effects s (snd (waitForService e p maxAttempts s)) =
     concat (replicate (k - 1) [Probe p, Sleep 1000]) @ [Probe p]" by (rule n)
  show "probes_in (new_effects s (snd (waitForService e p maxAttempts s))) = k"
    using a by (simp add: n probes_in_append probes_in_rounds) (simp add: probes_in_def)
next
  assume "\<forall>j<maxAttempts. \<not> probe_ok e (tick s + j) p"
  then have "\<forall>j<maxAttempts - 0. \<not> probe_ok e (tick s + j) p" by simp
  from waitLoop_fail[OF this]
  have "waitLoop e p maxAttempts 0 s =
     (False, s\<lparr>tick := tick s + (maxAttempts - 0),
               trace := trace s @ concat (replicate (maxAttempts - 0) [Probe p, Sleep 1000])\<rparr>)" .
  then have w: "waitForService e p maxAttempts s =
     (False, s\<lparr>tick := tick s + maxAttempts,
               trace := trace s @ concat (replicate maxAttempts [Probe p, Sleep 1000])\<rparr>)"
    by (simp add: waitForService_def)
  show "fst (waitForService e p maxAttempts s) = False" by (simp add: w)
  have n: "new_effects s (snd (waitForService e p maxAttempts s)) =
     concat (replicate maxAttempts [Probe p, Sleep 1000])"
    by (rule new_effects_append) (simp add: w)
  show "probes_in (new_effects s (snd (waitForService e p maxAttempts s))) = maxAttempts"
    by (simp add: n probes_in_rounds)
  show "new_effects s (snd (waitForService e p maxAttempts s)) =
     concat (replicate maxAttempts [Probe p, Sleep 1000])" by (rule n)
qed

text \<open>
  The two scenarios of the specification: a port that answers on the second attempt, and
  a port without a listener, each with three attempts allowed.
\<close>

theorem C2_waitForService_witness:
  "fst (waitForService (env_of [Refused, Established ResponseReceived]) BACKEND_PORT 3 init) = True \<and>
   probes_in (new_effects init
      (snd (waitForService (env_of [Refused, Established ResponseReceived]) BACKEND_PORT 3 init))) = 2 \<and>
   fst (waitForService (env_of []) BACKEND_PORT 3 init) = False \<and>
   probes_in (new_effects init (snd (waitForService (env_of []) BACKEND_PORT 3 init))) = 3"
proof -
  have m: "(1::nat) \<le> 3" by simp
  have a: "1 \<le> (2::nat) \<and> (2::nat) \<le> 3 \<and>
     (\<forall>j<2 - 1. \<not> probe_ok (env_of [Refused, Established ResponseReceived]) (tick init + j) BACKEND_PORT) \<and>
     probe_ok (env_of [Refused, Established ResponseReceived]) (tick init + (2 - 1)) BACKEND_PORT"
    by (simp add: probe_ok_def env_of_def init_def)
  have b: "\<forall>j<3. \<not> probe_ok (env_of []) (tick init + j) BACKEND_PORT"
    by (simp add: probe_ok_def env_of_def)
  from C2_waitForService[OF m, of "env_of [Refused, Established ResponseReceived]" init BACKEND_PORT] a
       C2_waitForService[OF m, of "env_of []" init BACKEND_PORT] b
  show ?thesis by blast
qed

subsection \<open>The port prober\<close>

text \<open>
  Claim C3 says that the prober resolves to \<^verbatim>\<open>true\<close> exactly when a connection is
  established within the timeout. The prober waits for an HTTP response: on a connection
  that is established and then stays silent for the timeout, the \<^verbatim>\<open>timeout\<close> handler
  resolves to \<^verbatim>\<open>false\<close>.
\<close>

theorem C3_checkService_counterexample:
  "connection_established (probe (env_of [Established NoResponse]) (tick init) BACKEND_PORT) \<and>
   fst (checkService (env_of [Established NoResponse]) BACKEND_PORT init) = False"
  by (simp add: checkService_def env_of_def init_def)

text \<open>
  Claim C3, amended. For every port and every outcome of the request, the prober
  resolves to a boolean (it has no rejecting path): to \<^verbatim>\<open>true\<close> exactly when the
  connection is established and an HTTP response arrives, and to \<^verbatim>\<open>false\<close> whenever
  no connection is established (refusal, timeout, any other connection error).
\<close>

theorem C3_checkService:
  "fst (checkService e p s) = (probe e (tick s) p = Established ResponseReceived) \<and>
   (\<not> connection_established (probe e (tick s) p) \<longrightarrow> fst (checkService e p s) = False)"
proof (cases "probe e (tick s) p")
  case (Established h)
  then show ?thesis by (cases h) (simp_all add: checkService_def)
qed (simp_all add: checkService_def)

text \<open>
  A probe that is answered, followed by a probe that is refused.
\<close>

theorem C3_checkService_witness:
  "fst (checkService (env_of [Established ResponseReceived, Refused]) OLLAMA_PORT init) = True \<and>
   fst (checkService (env_of [Established ResponseReceived, Refused]) OLLAMA_PORT
          (snd (checkService (env_of [Established ResponseReceived, Refused]) OLLAMA_PORT init))) = False"
proof -
  let ?e = "env_of [Established ResponseReceived, Refused]"
  let ?s1 = "snd (checkService ?e OLLAMA_PORT init)"
  have a: "probe ?e (tick init) OLLAMA_PORT = Established ResponseReceived"
    by (simp add: env_of_def init_def)
  have b: "\<not> connection_established (probe ?e (tick ?s1) OLLAMA_PORT)"
    by (simp add: env_of_def init_def checkService_def emit_def)
  from C3_checkService[of ?e OLLAMA_PORT init] a C3_checkService[of ?e OLLAMA_PORT ?s1] b
  show ?thesis by blast
qed

subsection \<open>No restart policy\<close>

text \<open>
  Claim C4 speaks of a restart counter, a cap, automatic start attempts in periodic
  health checks and a descriptor marked \<^verbatim>\<open>Degraded\<close> until an explicit restart. The
  main process has the four variables of \<open>vars\<close> and nothing else. In this run the one
  start attempt of the start-up fails (the error box is shown) and the backend exits.
  Two status checks follow, without any restart request: neither makes a start
  attempt, the first reports the backend as down, and the second reports it as up,
  because the port answers by then; the variables are the same before and after. No
  failure is counted and none is remembered.
\<close>

theorem C4_restart_cap_counterexample:
  "spawned_in (trace (run production late_backend [AppReady, ChildExit 0 (Some 1)] init)) =
     [Backend] \<and>
   ErrorBox ''Backend Error'' \<in>
     set (trace (run production late_backend [AppReady, ChildExit 0 (Some 1)] init)) \<and>
   vars (run production late_backend [AppReady, ChildExit 0 (Some 1)] init) =
     (True, False, None, None) \<and>
   new_effects
     (run production late_backend [AppReady, ChildExit 0 (Some 1)] init)
     (run production late_backend
        [AppReady, ChildExit 0 (Some 1), UiCall GetServicesStatus []] init) =
     [Probe OLLAMA_PORT, Probe BACKEND_PORT,
      Send [(''ollama'', True), (''backend'', False), (''frontend'', True)]] \<and>
   vars (run production late_backend
        [AppReady, ChildExit 0 (Some 1), UiCall GetServicesStatus []] init) =
     (True, False, None, None) \<and>
   new_effects
     (run production late_backend
        [AppReady, ChildExit 0 (Some 1), UiCall GetServicesStatus []] init)
     (run production late_backend
        [AppReady, ChildExit 0 (Some 1), UiCall GetServicesStatus [],
         UiCall GetServicesStatus []] init) =
     [Probe OLLAMA_PORT, Probe BACKEND_PORT,
      Send [(''ollama'', True), (''backend'', True), (''frontend'', True)]] \<and>
   vars (run production late_backend
        [AppReady, ChildExit 0 (Some 1), UiCall GetServicesStatus [],
         UiCall GetServicesStatus []] init) =
     (True, False, None, None)"
  by (simp add: model_defs late_backend_def vars_def cong: let_weak_cong)

text \<open>
  Claim C4, amended. The orchestrator makes no automatic start attempt at all: handling
  an event other than the start-up of the application and an explicit restart request
  of the UI spawns no process. When a live backend process exits, the exit listener
  logs the exit code and clears the stored handle, and nothing else. A status check
  changes none of the variables of the main process.
\<close>

theorem C4_no_automatic_restart:
  "(ev \<noteq> AppReady \<and> (\<forall>args. ev \<noteq> UiCall RestartBackend args) \<longrightarrow>
      spawned_in (new_effects s (handle c e ev s)) = []) \<and>
   (p < length (children s) \<and> \<not> exited (children s ! p) \<and>
    spawned_for (children s ! p) = Backend \<longrightarrow>
      new_effects s (child_exit p code s) = [LogExit code] \<and>
      backendProcess (child_exit p code s) = None) \<and>
   vars (snd (checkAllServices e s)) = vars s"
proof (intro conjI impI)
  assume "ev \<noteq> AppReady \<and> (\<forall>args. ev \<noteq> UiCall RestartBackend args)"
  then show "spawned_in (new_effects s (handle c e ev s)) = []"
    using handle_no_spawn by blast
next
  assume a: "p < length (children s) \<and> \<not> exited (children s ! p) \<and>
    spawned_for (children s ! p) = Backend"
  then show "new_effects s (child_exit p code s) = [LogExit code]"
    by (simp add: child_exit_def backend_on_exit_def emit_def new_effects_def)
  from a show "backendProcess (child_exit p code s) = None"
    by (simp add: child_exit_def backend_on_exit_def emit_def)
next
  show "vars (snd (checkAllServices e s)) = vars s"
    by (simp add: checkAllServices_eq vars_def)
qed

text \<open>
  The backend is started as process 0 and exits with code 1: nothing is spawned, and
  the stored handle is cleared.
\<close>

theorem C4_no_automatic_restart_witness:
  "spawned_in (new_effects
     (run production
        (env_of [Established ResponseReceived, Refused, Established ResponseReceived])
        [AppReady] init)
     (run production
        (env_of [Established ResponseReceived, Refused, Established ResponseReceived])
        [AppReady, ChildExit 0 (Some 1)] init)) = [] \<and>
   backendProcess
     (run production
        (env_of [Established ResponseReceived, Refused, Established ResponseReceived])
        [AppReady, ChildExit 0 (Some 1)] init) = None"
proof -
  let ?e = "env_of [Established ResponseReceived, Refused, Established ResponseReceived]"
  let ?s = "run production ?e [AppReady] init"
  have h: "0 < length (children ?s) \<and> \<not> exited (children ?s ! 0) \<and>
    spawned_for (children ?s ! 0) = Backend"
    by (simp add: model_defs cong: let_weak_cong)
  have ev: "ChildExit 0 (Some 1) \<noteq> AppReady \<and>
      (\<forall>args. ChildExit 0 (Some 1) \<noteq> UiCall RestartBackend args)" by simp
  have r: "run production ?e [AppReady, ChildExit 0 (Some 1)] init =
      handle production ?e (ChildExit 0 (Some 1)) ?s" by (simp add: quits_def)
  from C4_no_automatic_restart[of "ChildExit 0 (Some 1)" ?s production ?e 0 "Some 1"] h ev
  have "spawned_in (new_effects ?s (handle production ?e (ChildExit 0 (Some 1)) ?s)) = []"
    and "backendProcess (child_exit 0 (Some 1) ?s) = None" by blast+
  then show ?thesis unfolding r by simp
qed

subsection \<open>The restart operation of the bridge\<close>

text \<open>
  Claim C5 says that the bridge rejects a restart of the runtime and neither terminates
  nor spawns a process. The only restart operation of the bridge is
  \<^verbatim>\<open>restartBackend\<close>, a function without parameters: called with \<^verbatim>\<open>"runtime"\<close> after a
  start-up that started the backend as process 0, it is not rejected; it signals
  process 0 and spawns the backend again as process 1.
\<close>

theorem C5_restart_counterexample:
  "fst (restartBackend [''runtime''] production
          (env_of [Established ResponseReceived, Refused, Established ResponseReceived,
                   Refused, Established ResponseReceived])
          (run production
             (env_of [Established ResponseReceived, Refused, Established ResponseReceived,
                      Refused, Established ResponseReceived])
             [AppReady] init)) = Inr (VBool True) \<and>
   new_effects
     (run production
        (env_of [Established ResponseReceived, Refused, Established ResponseReceived,
                 Refused, Established ResponseReceived])
        [AppReady] init)
     (snd (restartBackend [''runtime''] production
          (env_of [Established ResponseReceived, Refused, Established ResponseReceived,
                   Refused, Established ResponseReceived])
          (run production
             (env_of [Established ResponseReceived, Refused, Established ResponseReceived,
                      Refused, Established ResponseReceived])
             [AppReady] init))) =
     [Kill 0, Probe BACKEND_PORT, Log ''Starting backend...'', Spawn Backend 1,
      Probe BACKEND_PORT]"
  by (simp add: model_defs cong: let_weak_cong)

text \<open>
  Claim C5, amended. The restart operation of the bridge takes no service name: whatever
  arguments the UI passes, the call does what the call without arguments does, it is
  never rejected, it signals the stored backend handle (if any) and nothing else, it
  spawns a backend process (exactly when the probe of the backend port is not answered)
  and a process for no other service, and it leaves the stored asset-server handle as
  it was. A rejection is defined only below the bridge: an invocation on a channel
  without a registered handler is rejected and changes nothing.
\<close>

theorem C5_restartBackend:
  "restartBackend args c e s = restartBackend [] c e s \<and>
   (\<exists>b. fst (restartBackend args c e s) = Inr (VBool b)) \<and>
   killed_in (new_effects s (snd (restartBackend args c e s))) =
     (case backendProcess s of Some p \<Rightarrow> [p] | None \<Rightarrow> []) \<and>
   spawned_in (new_effects s (snd (restartBackend args c e s))) =
     (if probe_ok e (tick s) BACKEND_PORT then [] else [Backend]) \<and>
   frontendProcess (snd (restartBackend args c e s)) = frontendProcess s \<and>
   (channel \<notin> {''get-services-status'', ''restart-backend'', ''open-file-dialog'',
                ''get-user-data-path''} \<longrightarrow>
      ipcMain_invoke c e channel s = (Inl (NoHandler channel), s))"
proof -
  from restart_backend_effects[of s c e] obtain xs where
    t: "new_effects s (snd (restart_backend c e s)) =
          (case backendProcess s of Some p \<Rightarrow> [Kill p] | None \<Rightarrow> []) @
          Probe BACKEND_PORT # xs"
    and k: "killed_in xs = []"
    and sp: "spawned_in xs = (if probe_ok e (tick s) BACKEND_PORT then [] else [Backend])"
    by auto
  have 1: "restartBackend args c e s = restartBackend [] c e s"
    by (simp add: restartBackend_def)
  have 2: "\<exists>b. fst (restartBackend args c e s) = Inr (VBool b)"
    by (simp add: bridge_simps)
  have 3: "killed_in (new_effects s (snd (restartBackend args c e s))) =
     (case backendProcess s of Some p \<Rightarrow> [p] | None \<Rightarrow> [])"
    by (simp add: bridge_simps t killed_in_append k split: option.splits)
  have 4: "spawned_in (new_effects s (snd (restartBackend args c e s))) =
     (if probe_ok e (tick s) BACKEND_PORT then [] else [Backend])"
    by (simp add: bridge_simps t spawned_in_append sp split: option.splits)
  have 5: "frontendProcess (snd (restartBackend args c e s)) = frontendProcess s"
    by (simp add: bridge_simps restart_backend_frame(1))
  have 6: "channel \<notin> {''get-services-status'', ''restart-backend'', ''open-file-dialog'',
                ''get-user-data-path''} \<longrightarrow>
      ipcMain_invoke c e channel s = (Inl (NoHandler channel), s)"
    by (simp add: ipcMain_invoke_def)
  show ?thesis using 1 2 3 4 5 6 by (intro conjI)
qed

text \<open>
  The name of a service as argument changes nothing, and an invocation on a channel
  \<^verbatim>\<open>restart-runtime\<close> is rejected.
\<close>

theorem C5_restartBackend_witness:
  "restartBackend [''assets''] production (env_of [Established ResponseReceived]) init =
     restartBackend [] production (env_of [Established ResponseReceived]) init \<and>
   ipcMain_invoke production (env_of []) ''restart-runtime'' init =
     (Inl (NoHandler ''restart-runtime''), init)"
proof
  show "restartBackend [''assets''] production (env_of [Established ResponseReceived]) init =
     restartBackend [] production (env_of [Established ResponseReceived]) init"
    by (rule C5_restartBackend[THEN conjunct1])
  have n: "''restart-runtime'' \<notin> {''get-services-status'', ''restart-backend'',
      ''open-file-dialog'', ''get-user-data-path''}" by simp
  from C5_restartBackend[of "[]" production "env_of []" init "''restart-runtime''",
      THEN conjunct2, THEN conjunct2, THEN conjunct2, THEN conjunct2, THEN conjunct2] n
  show "ipcMain_invoke production (env_of []) ''restart-runtime'' init =
     (Inl (NoHandler ''restart-runtime''), init)"
    by (rule mp)
qed

subsection \<open>The order of start-up\<close>

text \<open>
  Claim C6. In the effects of the start-up handler, taken in order: the steps on the
  runtime come before the steps on the backend, which come before the steps on the
  asset server; the first probe goes to the runtime; a process is spawned for the
  runtime exactly when that first probe is not answered (the fallback launch); the
  backend port is probed, so the backend is started, whatever the runtime check gave;
  and the asset server is touched exactly in development mode. What is started is
  fixed by the first probe of each port: the processes spawned are, in this order, the
  runtime when its probe is not answered, the backend when the first probe of its port
  is not answered, and in development mode the asset server when the first probe of
  its port is not answered, and no other; each is appended to the processes with its
  command line; the handle of the backend and the handle of the asset server are
  stored in their variables exactly when the process is spawned, and are left as they
  were otherwise.
\<close>

theorem C6_startup_order:
  "sorted (map rank (steps (new_effects s (whenReady c e s)))) \<and>
   find is_probe (new_effects s (whenReady c e s)) = Some (Probe OLLAMA_PORT) \<and>
   (Ollama \<in> set (spawned_in (new_effects s (whenReady c e s))) \<longleftrightarrow>
      \<not> probe_ok e (tick s) OLLAMA_PORT) \<and>
   Probe BACKEND_PORT \<in> set (new_effects s (whenReady c e s)) \<and>
   (Frontend \<in> set (steps (new_effects s (whenReady c e s))) \<longleftrightarrow> isDev c) \<and>
   spawned_in (new_effects s (whenReady c e s)) =
     (if probe_ok e (tick s) OLLAMA_PORT then [] else [Ollama]) @
     (if first_probe_ok e s (new_effects s (whenReady c e s)) BACKEND_PORT then []
      else [Backend]) @
     (if isDev c \<and> \<not> first_probe_ok e s (new_effects s (whenReady c e s)) FRONTEND_PORT
      then [Frontend] else []) \<and>
   children (whenReady c e s) =
     children s @
     (if probe_ok e (tick s) OLLAMA_PORT then []
      else [new_child Ollama ''ollama'' [''serve''] True]) @
     (if first_probe_ok e s (new_effects s (whenReady c e s)) BACKEND_PORT then []
      else [new_child Backend (pythonCmd c) [''-m'', ''app.main''] False]) @
     (if isDev c \<and> \<not> first_probe_ok e s (new_effects s (whenReady c e s)) FRONTEND_PORT
      then [new_child Frontend ''npm'' [''run'', ''dev''] False] else []) \<and>
   backendProcess (whenReady c e s) =
     (if first_probe_ok e s (new_effects s (whenReady c e s)) BACKEND_PORT
      then backendProcess s
      else Some (length (children s) + (if probe_ok e (tick s) OLLAMA_PORT then 0 else 1))) \<and>
   frontendProcess (whenReady c e s) =
     (if isDev c \<and> \<not> first_probe_ok e s (new_effects s (whenReady c e s)) FRONTEND_PORT
      then Some (length (children s) + (if probe_ok e (tick s) OLLAMA_PORT then 0 else 1) +
                 (if first_probe_ok e s (new_effects s (whenReady c e s)) BACKEND_PORT
                  then 0 else 1))
      else frontendProcess s)"
proof -
  note order = startup_order_steps[of s c e]
  note started = whenReady_started[where s=s and c=c and e=e]
  show ?thesis
    using order started(1) started(2) started(3) started(4) by (intro conjI) blast+
qed

text \<open>
  A start-up in development mode in which no service is running at first: three steps
  on each service (probe, spawn, probe), in the order runtime, backend, asset server;
  the three processes are spawned in this order, and processes 1 and 2 are stored as
  the handles of the backend and of the asset server.
\<close>

theorem C6_startup_order_witness:
  "steps (new_effects init
      (whenReady development
         (env_of [Refused, Refused, Refused, Established ResponseReceived,
                  Refused, Established ResponseReceived]) init)) =
     [Ollama, Ollama, Ollama, Backend, Backend, Backend, Frontend, Frontend, Frontend] \<and>
   sorted (map rank (steps (new_effects init
      (whenReady development
         (env_of [Refused, Refused, Refused, Established ResponseReceived,
                  Refused, Established ResponseReceived]) init)))) \<and>
   Probe BACKEND_PORT \<in> set (new_effects init
      (whenReady development
         (env_of [Refused, Refused, Refused, Established ResponseReceived,
                  Refused, Established ResponseReceived]) init)) \<and>
   spawned_in (new_effects init
      (whenReady development
         (env_of [Refused, Refused, Refused, Established ResponseReceived,
                  Refused, Established ResponseReceived]) init)) =
     [Ollama, Backend, Frontend] \<and>
   backendProcess
      (whenReady development
         (env_of [Refused, Refused, Refused, Established ResponseReceived,
                  Refused, Established ResponseReceived]) init) = Some 1 \<and>
   frontendProcess
      (whenReady development
         (env_of [Refused, Refused, Refused, Established ResponseReceived,
                  Refused, Established ResponseReceived]) init) = Some 2"
proof -
  let ?e = "env_of [Refused, Refused, Refused, Established ResponseReceived,
                  Refused, Established ResponseReceived]"
  have "steps (new_effects init (whenReady development ?e init)) =
     [Ollama, Ollama, Ollama, Backend, Backend, Backend, Frontend, Frontend, Frontend]"
    and "spawned_in (new_effects init (whenReady development ?e init)) =
     [Ollama, Backend, Frontend]"
    and "backendProcess (whenReady development ?e init) = Some 1"
    and "frontendProcess (whenReady development ?e init) = Some 2"
    by (simp_all add: model_defs steps_Cons steps_Nil cong: let_weak_cong)
  with C6_startup_order[of init development ?e] show ?thesis by simp
qed

subsection \<open>Shutdown\<close>




text \<open>
  The exit listener of a backend process clears the variable \<^verbatim>\<open>backendProcess\<close>
  whatever handle it holds. In this run the backend is restarted (process 0 is
  signalled, process 1 is spawned and stored), then process 0 exits: its listener
  clears the handle of process 1, and the shutdown handler finds nothing to signal, so
  that process 1 is live and has never been signalled when the application ends.
\<close>

lemma exit_listener_clears_newer_handle:
  "backendProcess
     (run production
        (env_of [Established ResponseReceived, Refused, Established ResponseReceived,
                 Refused, Established ResponseReceived])
        [AppReady, UiCall RestartBackend []] init) = Some 1 \<and>
   backendProcess
     (run production
        (env_of [Established ResponseReceived, Refused, Established ResponseReceived,
                 Refused, Established ResponseReceived])
        [AppReady, UiCall RestartBackend [], ChildExit 0 None] init) = None \<and>
   live_of Backend
     (run production
        (env_of [Established ResponseReceived, Refused, Established ResponseReceived,
                 Refused, Established ResponseReceived])
        [AppReady, UiCall RestartBackend [], ChildExit 0 None, Quit] init) = [1] \<and>
   map signalled (children
     (run production
        (env_of [Established ResponseReceived, Refused, Established ResponseReceived,
                 Refused, Established ResponseReceived])
        [AppReady, UiCall RestartBackend [], ChildExit 0 None, Quit] init)) = [True, False]"
  by (simp add: model_defs live_of_def upt_rec cong: let_weak_cong)

subsection \<open>Termination after the exit\<close>

text \<open>
  Claim C8. When the process of the stored backend handle exits, the exit listener
  clears the stored handle. After that, a restart request is exactly a call of
  \<^verbatim>\<open>startBackend\<close>: it answers with a boolean, never with an error, and signals no
  process; the shutdown handler signals no backend process; and \<^verbatim>\<open>kill()\<close> on the
  process that has exited changes no process.
\<close>

theorem C8_terminate_after_exit:
  assumes "backendProcess s = Some p" and "p < length (children s)"
    and "spawned_for (children s ! p) = Backend" and "\<not> exited (children s ! p)"
  shows "backendProcess (child_exit p code s) = None \<and>
         restart_backend c e (child_exit p code s) = startBackend c e (child_exit p code s) \<and>
         (\<exists>b. fst (restartBackend args c e (child_exit p code s)) = Inr (VBool b)) \<and>
         killed_in (new_effects (child_exit p code s)
                      (snd (restartBackend args c e (child_exit p code s)))) = [] \<and>
         killed_in (new_effects (child_exit p code s) (before_quit (child_exit p code s))) =
           (case frontendProcess s of Some q \<Rightarrow> [q] | None \<Rightarrow> []) \<and>
         children (kill p (child_exit p code s)) = children (child_exit p code s)"
proof -
  let ?s1 = "child_exit p code s"
  have s1: "?s1 = s\<lparr>children := (children s)[p := (children s ! p)\<lparr>exited := True\<rparr>],
                     backendProcess := None, trace := trace s @ [LogExit code]\<rparr>"
    using assms by (cases s) (simp add: child_exit_def backend_on_exit_def emit_def)
  have 1: "backendProcess ?s1 = None" by (simp add: s1)
  have 2: "restart_backend c e ?s1 = startBackend c e ?s1"
    by (simp add: restart_backend_def 1)
  have 3: "\<exists>b. fst (restartBackend args c e ?s1) = Inr (VBool b)"
    by (simp add: bridge_simps)
  from restart_backend_effects[of ?s1 c e] obtain xs where
    "new_effects ?s1 (snd (restart_backend c e ?s1)) =
       (case backendProcess ?s1 of Some p \<Rightarrow> [Kill p] | None \<Rightarrow> []) @ Probe BACKEND_PORT # xs"
    and "killed_in xs = []" by auto
  then have 4: "killed_in (new_effects ?s1 (snd (restartBackend args c e ?s1))) = []"
    by (simp add: bridge_simps 1)
  have "new_effects ?s1 (before_quit ?s1) =
     Log ''App quitting...'' #
       (case backendProcess ?s1 of Some p \<Rightarrow> [Kill p] | None \<Rightarrow> []) @
       (case frontendProcess ?s1 of Some q \<Rightarrow> [Kill q] | None \<Rightarrow> [])"
    by (rule new_effects_append) (rule before_quit_eq(1))
  moreover have "frontendProcess ?s1 = frontendProcess s" by (simp add: s1)
  ultimately have 5: "killed_in (new_effects ?s1 (before_quit ?s1)) =
      (case frontendProcess s of Some q \<Rightarrow> [q] | None \<Rightarrow> [])"
    by (simp add: 1 split: option.splits)
  have "exited (children ?s1 ! p)" using assms(2) by (simp add: s1)
  then have 6: "children (kill p ?s1) = children ?s1"
    by (simp add: kill_def emit_def)
  show ?thesis using 1 2 3 4 5 6 by (intro conjI)
qed

text \<open>
  The backend is started as process 0 and exits with code 1; the restart request that
  follows signals nothing.
\<close>

theorem C8_terminate_after_exit_witness:
  "backendProcess
     (run production
        (env_of [Established ResponseReceived, Refused, Established ResponseReceived])
        [AppReady] init) = Some 0 \<and>
   backendProcess
     (run production
        (env_of [Established ResponseReceived, Refused, Established ResponseReceived])
        [AppReady, ChildExit 0 (Some 1)] init) = None \<and>
   killed_in (new_effects
     (run production
        (env_of [Established ResponseReceived, Refused, Established ResponseReceived])
        [AppReady, ChildExit 0 (Some 1)] init)
     (run production
        (env_of [Established ResponseReceived, Refused, Established ResponseReceived])
        [AppReady, ChildExit 0 (Some 1), UiCall RestartBackend []] init)) = []"
proof -
  let ?e = "env_of [Established ResponseReceived, Refused, Established ResponseReceived]"
  let ?s = "run production ?e [AppReady] init"
  have h: "backendProcess ?s = Some 0" "0 < length (children ?s)"
    "spawned_for (children ?s ! 0) = Backend" "\<not> exited (children ?s ! 0)"
    by (simp_all add: model_defs cong: let_weak_cong)
  have r: "run production ?e [AppReady, ChildExit 0 (Some 1)] init = child_exit 0 (Some 1) ?s"
    "run production ?e [AppReady, ChildExit 0 (Some 1), UiCall RestartBackend []] init =
       snd (restartBackend [] production ?e (child_exit 0 (Some 1) ?s))"
    by (simp_all add: quits_def)
  from C8_terminate_after_exit[OF h, of "Some 1" production ?e "[]"] h(1)
  show ?thesis unfolding r by (intro conjI) simp_all
qed

subsection \<open>A backend that is already running\<close>

text \<open>
  Claim C9. When the probe of the backend port that \<^verbatim>\<open>startBackend\<close> makes is answered,
  \<^verbatim>\<open>startBackend\<close> returns \<^verbatim>\<open>true\<close> after that one probe and one log line, spawns no
  process, and leaves the stored backend handle and the processes as they were.
\<close>

theorem C9_startBackend_already_running:
  assumes "probe_ok e (tick s) BACKEND_PORT"
  shows "fst (startBackend c e s) = True \<and>
         new_effects s (snd (startBackend c e s)) =
           [Probe BACKEND_PORT, Log ''Backend already running''] \<and>
         spawned_in (new_effects s (snd (startBackend c e s))) = [] \<and>
         backendProcess (snd (startBackend c e s)) = backendProcess s \<and>
         children (snd (startBackend c e s)) = children s"
proof -
  have sb: "startBackend c e s =
      (True, s\<lparr>tick := Suc (tick s),
               trace := trace s @ [Probe BACKEND_PORT, Log ''Backend already running'']\<rparr>)"
    by (rule startBackend_up[OF assms])
  have n: "new_effects s (snd (startBackend c e s)) =
      [Probe BACKEND_PORT, Log ''Backend already running'']"
    by (rule new_effects_append) (simp add: sb)
  have "spawned_in (new_effects s (snd (startBackend c e s))) = []"
    by (simp add: n)
  moreover have "backendProcess (snd (startBackend c e s)) = backendProcess s"
    and "children (snd (startBackend c e s)) = children s"
    by (simp_all add: sb)
  ultimately show ?thesis using n by (simp add: sb)
qed

text \<open>
  A first call starts the backend as process 0; a second call finds the port answering
  and leaves process 0 as the stored handle.
\<close>

theorem C9_startBackend_already_running_witness:
  "backendProcess
     (snd (startBackend production
        (env_of [Refused, Established ResponseReceived, Established ResponseReceived]) init)) =
     Some 0 \<and>
   fst (startBackend production
      (env_of [Refused, Established ResponseReceived, Established ResponseReceived])
      (snd (startBackend production
        (env_of [Refused, Established ResponseReceived, Established ResponseReceived]) init))) =
     True \<and>
   backendProcess
     (snd (startBackend production
        (env_of [Refused, Established ResponseReceived, Established ResponseReceived])
        (snd (startBackend production
          (env_of [Refused, Established ResponseReceived, Established ResponseReceived])
          init)))) = Some 0"
proof -
  let ?e = "env_of [Refused, Established ResponseReceived, Established ResponseReceived]"
  let ?s1 = "snd (startBackend production ?e init)"
  have b: "backendProcess ?s1 = Some 0" by (simp add: model_defs cong: let_weak_cong)
  have p: "probe_ok ?e (tick ?s1) BACKEND_PORT" by (simp add: model_defs probe_ok_def cong: let_weak_cong)
  from C9_startBackend_already_running[OF p, of production] b show ?thesis by simp
qed

subsection \<open>The status check\<close>

text \<open>
  Claim C10 says that every status result of the check reports the asset server as up.
  The value that \<^verbatim>\<open>checkAllServices\<close> returns, which is what \<^verbatim>\<open>getServicesStatus\<close>
  gives to the UI, has the fields \<^verbatim>\<open>ollama\<close> and \<^verbatim>\<open>backend\<close> only: it has no field
  \<^verbatim>\<open>frontend\<close>.
\<close>

theorem C10_checkAllServices_counterexample:
  "fst (checkAllServices (env_of [Established ResponseReceived, Established ResponseReceived])
          (createWindow init)) = [(''ollama'', True), (''backend'', True)] \<and>
   map_of (fst (checkAllServices
                  (env_of [Established ResponseReceived, Established ResponseReceived])
                  (createWindow init))) ''frontend'' = None"
  by (simp add: model_defs cong: let_weak_cong)

text \<open>
  Claim C10, amended. For every world and every state, the check probes the runtime
  port and then the backend port and never the asset-server port; the value it returns
  has the two fields \<^verbatim>\<open>ollama\<close> and \<^verbatim>\<open>backend\<close> with the results of the two probes;
  and when a window exists it sends the window one status message with these two fields
  and the field \<^verbatim>\<open>frontend\<close>, which is the constant \<^verbatim>\<open>true\<close>.
\<close>

theorem C10_checkAllServices:
  "fst (checkAllServices e s) =
     [(''ollama'', probe_ok e (tick s) OLLAMA_PORT),
      (''backend'', probe_ok e (Suc (tick s)) BACKEND_PORT)] \<and>
   new_effects s (snd (checkAllServices e s)) =
     [Probe OLLAMA_PORT, Probe BACKEND_PORT] @
     (if mainWindow s
      then [Send [(''ollama'', probe_ok e (tick s) OLLAMA_PORT),
                  (''backend'', probe_ok e (Suc (tick s)) BACKEND_PORT),
                  (''frontend'', True)]]
      else []) \<and>
   Probe FRONTEND_PORT \<notin> set (new_effects s (snd (checkAllServices e s)))"
proof -
  let ?sent = "if mainWindow s
      then [Send [(''ollama'', probe_ok e (tick s) OLLAMA_PORT),
                  (''backend'', probe_ok e (Suc (tick s)) BACKEND_PORT),
                  (''frontend'', True)]]
      else []"
  have r: "fst (checkAllServices e s) =
     [(''ollama'', probe_ok e (tick s) OLLAMA_PORT),
      (''backend'', probe_ok e (Suc (tick s)) BACKEND_PORT)]"
    by (simp add: checkAllServices_eq)
  have n: "new_effects s (snd (checkAllServices e s)) =
     [Probe OLLAMA_PORT, Probe BACKEND_PORT] @ ?sent"
    by (rule new_effects_append) (simp add: checkAllServices_eq)
  have "Probe FRONTEND_PORT \<notin> set (new_effects s (snd (checkAllServices e s)))"
    unfolding n by (simp add: ports_distinct)
  with r n show ?thesis by (intro conjI)
qed

text \<open>
  A check with a window, a runtime that is down and a backend that is up.
\<close>

theorem C10_checkAllServices_witness:
  "new_effects (createWindow init)
     (snd (checkAllServices (env_of [Refused, Established ResponseReceived])
        (createWindow init))) =
     [Probe OLLAMA_PORT, Probe BACKEND_PORT,
      Send [(''ollama'', False), (''backend'', True), (''frontend'', True)]]"
proof -
  let ?e = "env_of [Refused, Established ResponseReceived]"
  have "mainWindow (createWindow init)" "tick (createWindow init) = 0"
    "\<not> probe_ok ?e 0 OLLAMA_PORT" "probe_ok ?e (Suc 0) BACKEND_PORT"
    by (simp_all add: model_defs probe_ok_def cong: let_weak_cong)
  with C10_checkAllServices[of ?e "createWindow init"] show ?thesis by simp
qed

end
